theory Spec2Isabelle
  imports Complex_Main "HOL-Library.Word" "HOL-Library.Signed_Division"
begin

section \<open>Convolution routines of xchainer (\<^verbatim>\<open>xchainer/routines/connection.cc\<close>)\<close>

text \<open>
  The file defines two pieces of dimension arithmetic (\<^verbatim>\<open>GetConvOutDim\<close>,
  \<^verbatim>\<open>GetConvTransposeOutDim\<close>) and three routines (\<^verbatim>\<open>ConvGradW\<close>, \<^verbatim>\<open>Conv\<close>,
  \<^verbatim>\<open>ConvTranspose\<close>) that call a device kernel and register backward functions, each
  of which calls one of the other routines when it is invoked later.
\<close>

subsection \<open>Machine integers\<close>

text \<open>
  \<^verbatim>\<open>int64_t\<close> is a 64-bit word. Addition, subtraction and multiplication wrap around
  (two's complement; ISO C++ leaves signed overflow undefined, so the statements about
  integer values below carry explicit range hypotheses). The operator \<^verbatim>\<open>/\<close> truncates
  towards zero on the signed readings and traps on a zero divisor; its one overflowing
  quotient, of the least value by \<open>-1\<close>, wraps around like the other operations.
\<close>

type_synonym int64 = "64 word"

datatype error = AssertionFailed | IndexOutOfRange | DivisionByZero | InvalidRange

definition int64_div :: "int64 \<Rightarrow> int64 \<Rightarrow> error + int64" where
  "int64_div a b =
     (if b = 0 then Inl DivisionByZero else Inr (word_of_int (sint a sdiv sint b)))"

subsection \<open>Dimension arithmetic\<close>

definition GetConvOutDim :: "int64 \<Rightarrow> int64 \<Rightarrow> int64 \<Rightarrow> int64 \<Rightarrow> bool \<Rightarrow> error + int64" where
  "GetConvOutDim in_dim kernel_size stride pad cover_all =
     (if cover_all then
        (case int64_div (in_dim + pad * 2 - kernel_size + stride - 1) stride of
           Inl e \<Rightarrow> Inl e
         | Inr q \<Rightarrow> Inr (q + 1))
      else
        (case int64_div (in_dim + pad * 2 - kernel_size) stride of
           Inl e \<Rightarrow> Inl e
         | Inr q \<Rightarrow> Inr (q + 1)))"

definition GetConvTransposeOutDim :: "int64 \<Rightarrow> int64 \<Rightarrow> int64 \<Rightarrow> int64 \<Rightarrow> bool \<Rightarrow> int64" where
  "GetConvTransposeOutDim in_dim kernel_size stride pad cover_all =
     (if cover_all then stride * (in_dim - 1) + kernel_size - stride + 1 - 2 * pad
      else stride * (in_dim - 1) + kernel_size - 2 * pad)"

text \<open>
  The two roundings the specification names, on mathematical integers, for comparison
  with what \<^const>\<open>GetConvOutDim\<close> computes.
\<close>

definition floor_div :: "int \<Rightarrow> int \<Rightarrow> int" where
  "floor_div a b = \<lfloor>real_of_int a / real_of_int b\<rfloor>"

definition ceil_div :: "int \<Rightarrow> int \<Rightarrow> int" where
  "ceil_div a b = \<lceil>real_of_int a / real_of_int b\<rceil>"

subsection \<open>Arrays, sequences and the collaborators of the routines\<close>

text \<open>
  \<^verbatim>\<open>Shape\<close> and \<^verbatim>\<open>StackVector<int64_t, kMaxNdim>\<close> are lists of \<^typ>\<open>int64\<close>. The loop
  counters are \<^verbatim>\<open>int8_t\<close>; they stay below \<^verbatim>\<open>kMaxNdim\<close> and are natural numbers here.
  No sequence built here grows beyond the number of axes of an array, so the capacity
  \<^verbatim>\<open>kMaxNdim\<close> is never reached by an \<^verbatim>\<open>emplace_back\<close>.

  The routines read the shape, the element type and the device of an \<^verbatim>\<open>Array\<close>. Its
  contents and the graphs it belongs to are carried along: the contents are for the
  device kernels, the graphs for \<^verbatim>\<open>AsConstant\<close>.
\<close>

type_synonym GraphId = string

datatype Dtype = Bool | Int8 | Int16 | Int32 | Int64 | UInt8 | Float32 | Float64

record Array =
  shape :: "int64 list"
  dtype :: Dtype
  device :: nat
  data :: "int list"
  graph_ids :: "GraphId list"

text \<open>
  Modelled from the spec: the header \<^verbatim>\<open>xchainer/stack_vector.h\<close> is missing, and with it
  \<^verbatim>\<open>operator[]\<close> of \<^verbatim>\<open>StackVector\<close> and \<^verbatim>\<open>Shape\<close>. The specification makes a length
  mismatch of a per-axis sequence a precondition failure that stops the call, so a read
  outside the stored entries is the error \<^const>\<open>IndexOutOfRange\<close>.
\<close>

definition at_index :: "'a list \<Rightarrow> nat \<Rightarrow> error + 'a" where
  "at_index xs i = (if i < length xs then Inr (xs ! i) else Inl IndexOutOfRange)"

text \<open>
  Modelled from the spec: the constructor \<^verbatim>\<open>StackVector{first, last}\<close> of the missing
  header, called as \<^verbatim>\<open>{x_shape.begin() + 2, x_shape.end()}\<close>. It copies the entries from
  position 2 on; a shape with fewer than two axes has no such range.
\<close>

definition spatial_dims :: "int64 list \<Rightarrow> error + int64 list" where
  "spatial_dims x_shape =
     (if length x_shape < 2 then Inl InvalidRange else Inr (drop 2 x_shape))"

text \<open>
  Modelled from the spec: \<^verbatim>\<open>Array::AsConstant\<close> of the missing \<^verbatim>\<open>xchainer/array.h\<close>. It
  returns a view of the same tensor that no longer belongs to the graphs named in the
  stop-gradient list.
\<close>

definition AsConstant :: "Array \<Rightarrow> GraphId list \<Rightarrow> Array" where
  "AsConstant a graph_ids_to_stop_gradient =
     a\<lparr>graph_ids := filter (\<lambda>g. g \<notin> set graph_ids_to_stop_gradient) (graph_ids a)\<rparr>"

text \<open>
  A routine call that a backward function makes when it is invoked. The routines call
  each other only from inside backward functions, so the calls are data here and
  \<open>exec\<close> below runs them.
\<close>

datatype Call =
    ConvCall Array Array "Array option" "int64 list" "int64 list" bool
  | ConvTransposeCall Array Array "Array option" "int64 list" "int64 list" "int64 list option"
  | ConvGradWCall Dtype "int64 list" Array Array "int64 list" "int64 list" bool
  | SumCall Array "int64 list" bool
  | Abort error

type_synonym BackwardFunction = "Array \<times> GraphId list \<Rightarrow> Call"

text \<open>
  What a routine returns: the output array together with the operation node that
  \<^verbatim>\<open>internal::SetUpOpNodes\<close> attached to it (name, inputs, one backward function per
  input), or the error that stopped it. A backward function returns such a result
  again, so the type is coinductive.
\<close>

codatatype Result =
    is_Err: Err (the_error: error)
  | Ok (out: Array) (op_name: string) (inputs: "Array list")
       (backward_functions: "(Array \<times> GraphId list \<Rightarrow> Result) list")

text \<open>
  The device kernels and the reduction \<^verbatim>\<open>Sum\<close> of \<^verbatim>\<open>xchainer/routines/math.h\<close> are
  external: they are parameters of the model.
\<close>

record Device =
  device_Conv ::
    "Array \<Rightarrow> Array \<Rightarrow> Array option \<Rightarrow> int64 list \<Rightarrow> int64 list \<Rightarrow> bool \<Rightarrow> Array"
  device_ConvTranspose ::
    "Array \<Rightarrow> Array \<Rightarrow> Array option \<Rightarrow> int64 list \<Rightarrow> int64 list \<Rightarrow> int64 list \<Rightarrow> Array"
  device_ConvGradWeight ::
    "Dtype \<Rightarrow> int64 list \<Rightarrow> Array \<Rightarrow> Array \<Rightarrow> int64 list \<Rightarrow> int64 list \<Rightarrow> bool \<Rightarrow> Array"

record Env =
  devices :: "nat \<Rightarrow> Device"
  Sum :: "Array \<Rightarrow> int64 list \<Rightarrow> bool \<Rightarrow> Result"

text \<open>
  One routine body, run up to its \<^verbatim>\<open>return\<close>: it fails, or it hands over to an
  external routine, or it registers its backward functions on its output.
\<close>

datatype Step =
    is_Fail: Fail (step_error: error)
  | is_Extern: Extern (step_result: Result)
  | is_SetUpOpNodes: SetUpOpNodes (step_name: string) (step_inputs: "Array list")
      (step_out: Array) (step_backward_functions: "BackwardFunction list")

subsection \<open>Backward function of a bias\<close>

text \<open>
  \<^verbatim>\<open>Axes axis{0}; for (int8_t i = 2; i < gout.ndim(); ++i) axis.emplace_back(int64_t{i});\<close>
\<close>

function b_backward_axis_loop :: "nat \<Rightarrow> nat \<Rightarrow> int64 list \<Rightarrow> int64 list" where
  "b_backward_axis_loop i ndim axis =
     (if i < ndim then b_backward_axis_loop (Suc i) ndim (axis @ [of_nat i]) else axis)"
  by pat_completeness auto
termination
  by (relation "measure (\<lambda>(i, ndim, axis). ndim - i)") auto

declare b_backward_axis_loop.simps [simp del]

definition b_backward_function :: BackwardFunction where
  "b_backward_function = (\<lambda>(gout, graph_ids_to_stop_gradient).
     let axis = b_backward_axis_loop 2 (length (shape gout)) [0]
     in SumCall gout axis False)"

subsection \<open>\<^verbatim>\<open>ConvGradW\<close>\<close>

definition ConvGradW_x_backward_function ::
  "int64 list \<Rightarrow> Array \<Rightarrow> int64 list \<Rightarrow> int64 list \<Rightarrow> BackwardFunction" where
  "ConvGradW_x_backward_function x_shape gy stride pad = (\<lambda>(gout, graph_ids_to_stop_gradient).
     case spatial_dims x_shape of
       Inl e \<Rightarrow> Abort e
     | Inr out_size \<Rightarrow>
         if length out_size \<noteq> length stride then Abort AssertionFailed
         else ConvTransposeCall (AsConstant gy graph_ids_to_stop_gradient) gout None
                stride pad (Some out_size))"

definition ConvGradW_gy_backward_function ::
  "Array \<Rightarrow> int64 list \<Rightarrow> int64 list \<Rightarrow> bool \<Rightarrow> BackwardFunction" where
  "ConvGradW_gy_backward_function x stride pad cover_all = (\<lambda>(gout, graph_ids_to_stop_gradient).
     ConvCall (AsConstant x graph_ids_to_stop_gradient) gout None stride pad cover_all)"

definition ConvGradW_step ::
  "Env \<Rightarrow> Dtype \<Rightarrow> int64 list \<Rightarrow> Array \<Rightarrow> Array \<Rightarrow> int64 list \<Rightarrow> int64 list \<Rightarrow> bool \<Rightarrow> Step" where
  "ConvGradW_step env w_dtype w_shape x gy stride pad cover_all =
     (let ndim = int (length w_shape) - 2 in
      if \<not> ndim > 0 then Fail AssertionFailed
      else if int (length (shape x)) \<noteq> ndim + 2 then Fail AssertionFailed
      else if int (length (shape gy)) \<noteq> ndim + 2 then Fail AssertionFailed
      else if length stride \<noteq> nat ndim then Fail AssertionFailed
      else if length pad \<noteq> nat ndim then Fail AssertionFailed
      else
        let out = device_ConvGradWeight (devices env (device x))
                    w_dtype w_shape x gy stride pad cover_all;
            x_backward_function = ConvGradW_x_backward_function (shape x) gy stride pad;
            gy_backward_function = ConvGradW_gy_backward_function x stride pad cover_all
        in SetUpOpNodes ''conv-grad-weight'' [x, gy] out
             [x_backward_function, gy_backward_function])"

subsection \<open>\<^verbatim>\<open>Conv\<close>\<close>

definition Conv_x_backward_function ::
  "int64 list \<Rightarrow> Array \<Rightarrow> int64 list \<Rightarrow> int64 list \<Rightarrow> BackwardFunction" where
  "Conv_x_backward_function x_shape w stride pad = (\<lambda>(gout, graph_ids_to_stop_gradient).
     case spatial_dims x_shape of
       Inl e \<Rightarrow> Abort e
     | Inr out_size \<Rightarrow>
         ConvTransposeCall gout (AsConstant w graph_ids_to_stop_gradient) None
           stride pad (Some out_size))"

definition Conv_w_backward_function ::
  "Dtype \<Rightarrow> int64 list \<Rightarrow> Array \<Rightarrow> int64 list \<Rightarrow> int64 list \<Rightarrow> bool \<Rightarrow> BackwardFunction" where
  "Conv_w_backward_function w_dtype w_shape x stride pad cover_all =
     (\<lambda>(gout, graph_ids_to_stop_gradient).
        ConvGradWCall w_dtype w_shape (AsConstant x graph_ids_to_stop_gradient) gout
          stride pad cover_all)"

definition Conv_step ::
  "Env \<Rightarrow> Array \<Rightarrow> Array \<Rightarrow> Array option \<Rightarrow> int64 list \<Rightarrow> int64 list \<Rightarrow> bool \<Rightarrow> Step" where
  "Conv_step env x w b stride pad cover_all =
     (let out = device_Conv (devices env (device x)) x w b stride pad cover_all;
          x_backward_function = Conv_x_backward_function (shape x) w stride pad;
          w_backward_function =
            Conv_w_backward_function (dtype w) (shape w) x stride pad cover_all
      in case b of
           Some bias \<Rightarrow>
             SetUpOpNodes ''conv'' [x, w, bias] out
               [x_backward_function, w_backward_function, b_backward_function]
         | None \<Rightarrow>
             SetUpOpNodes ''conv'' [x, w] out [x_backward_function, w_backward_function])"

subsection \<open>\<^verbatim>\<open>ConvTranspose\<close>\<close>

text \<open>
  \<^verbatim>\<open>for (int8_t i = 0; i < ndim; ++i) real_out_size.emplace_back(...)\<close>, where
  \<^verbatim>\<open>ndim = x.ndim() - 2\<close> can be negative.
\<close>

function ConvTranspose_out_size_loop ::
  "int64 list \<Rightarrow> int64 list \<Rightarrow> int64 list \<Rightarrow> int64 list \<Rightarrow> int \<Rightarrow> nat \<Rightarrow> int64 list
     \<Rightarrow> error + int64 list" where
  "ConvTranspose_out_size_loop x_shape w_shape stride pad ndim i real_out_size =
     (if int i < ndim then
        (case at_index x_shape (i + 2) of Inl e \<Rightarrow> Inl e | Inr in_dim \<Rightarrow>
         case at_index w_shape (i + 2) of Inl e \<Rightarrow> Inl e | Inr kernel_size \<Rightarrow>
         case at_index stride i of Inl e \<Rightarrow> Inl e | Inr s \<Rightarrow>
         case at_index pad i of Inl e \<Rightarrow> Inl e | Inr p \<Rightarrow>
           ConvTranspose_out_size_loop x_shape w_shape stride pad ndim (Suc i)
             (real_out_size @ [GetConvTransposeOutDim in_dim kernel_size s p False]))
      else Inr real_out_size)"
  by pat_completeness auto
termination
  by (relation "measure (\<lambda>(x_shape, w_shape, stride, pad, ndim, i, acc). nat ndim - i)") auto

declare ConvTranspose_out_size_loop.simps [simp del]

definition ConvTranspose_real_out_size ::
  "Array \<Rightarrow> Array \<Rightarrow> int64 list \<Rightarrow> int64 list \<Rightarrow> int64 list option \<Rightarrow> error + int64 list" where
  "ConvTranspose_real_out_size x w stride pad out_size =
     (let ndim = int (length (shape x)) - 2 in
      case out_size of
        Some given \<Rightarrow> Inr given
      | None \<Rightarrow> ConvTranspose_out_size_loop (shape x) (shape w) stride pad ndim 0 [])"

text \<open>
  The loop that detects \<^verbatim>\<open>cover_all\<close>. The call in the source is
  \<^verbatim>\<open>GetConvOutDim(xdim, real_out_size[i], w.shape()[i + 2], stride[i], pad[i])\<close>: the
  last argument is an \<^verbatim>\<open>int64_t\<close> converted to \<^verbatim>\<open>bool\<close>. The arguments are read before
  the call, so a read out of range wins over the division.
\<close>

function ConvTranspose_cover_all_loop ::
  "int64 list \<Rightarrow> int64 list \<Rightarrow> int64 list \<Rightarrow> int64 list \<Rightarrow> int64 list \<Rightarrow> nat \<Rightarrow> error + bool" where
  "ConvTranspose_cover_all_loop x_shape w_shape real_out_size stride pad i =
     (if i < length x_shape then
        (case at_index x_shape i of Inl e \<Rightarrow> Inl e | Inr xdim \<Rightarrow>
         case at_index real_out_size i of Inl e \<Rightarrow> Inl e | Inr a2 \<Rightarrow>
         case at_index w_shape (i + 2) of Inl e \<Rightarrow> Inl e | Inr a3 \<Rightarrow>
         case at_index stride i of Inl e \<Rightarrow> Inl e | Inr a4 \<Rightarrow>
         case at_index pad i of Inl e \<Rightarrow> Inl e | Inr a5 \<Rightarrow>
         case GetConvOutDim xdim a2 a3 a4 (a5 \<noteq> 0) of Inl e \<Rightarrow> Inl e | Inr d \<Rightarrow>
           if xdim \<noteq> d then Inr True
           else ConvTranspose_cover_all_loop x_shape w_shape real_out_size stride pad (Suc i))
      else Inr False)"
  by pat_completeness auto
termination
  by (relation "measure (\<lambda>(x_shape, w_shape, real_out_size, stride, pad, i). length x_shape - i)")
     auto

declare ConvTranspose_cover_all_loop.simps [simp del]

definition ConvTranspose_cover_all ::
  "Array \<Rightarrow> Array \<Rightarrow> int64 list \<Rightarrow> int64 list \<Rightarrow> int64 list \<Rightarrow> error + bool" where
  "ConvTranspose_cover_all x w real_out_size stride pad =
     ConvTranspose_cover_all_loop (shape x) (shape w) real_out_size stride pad 0"

definition ConvTranspose_x_backward_function ::
  "Array \<Rightarrow> int64 list \<Rightarrow> int64 list \<Rightarrow> bool \<Rightarrow> BackwardFunction" where
  "ConvTranspose_x_backward_function w stride pad cover_all =
     (\<lambda>(gout, graph_ids_to_stop_gradient).
        ConvCall gout (AsConstant w graph_ids_to_stop_gradient) None stride pad cover_all)"

definition ConvTranspose_w_backward_function ::
  "Dtype \<Rightarrow> int64 list \<Rightarrow> Array \<Rightarrow> int64 list \<Rightarrow> int64 list \<Rightarrow> bool \<Rightarrow> BackwardFunction" where
  "ConvTranspose_w_backward_function w_dtype w_shape x stride pad cover_all =
     (\<lambda>(gout, graph_ids_to_stop_gradient).
        ConvGradWCall w_dtype w_shape gout (AsConstant x graph_ids_to_stop_gradient)
          stride pad cover_all)"

definition ConvTranspose_step ::
  "Env \<Rightarrow> Array \<Rightarrow> Array \<Rightarrow> Array option \<Rightarrow> int64 list \<Rightarrow> int64 list \<Rightarrow> int64 list option
     \<Rightarrow> Step" where
  "ConvTranspose_step env x w b stride pad out_size =
     (case ConvTranspose_real_out_size x w stride pad out_size of
        Inl e \<Rightarrow> Fail e
      | Inr real_out_size \<Rightarrow>
          let out = device_ConvTranspose (devices env (device x)) x w b stride pad real_out_size
          in case ConvTranspose_cover_all x w real_out_size stride pad of
               Inl e \<Rightarrow> Fail e
             | Inr cover_all \<Rightarrow>
                 let x_backward_function =
                       ConvTranspose_x_backward_function w stride pad cover_all;
                     w_backward_function =
                       ConvTranspose_w_backward_function (dtype w) (shape w) x stride pad
                         cover_all
                 in case b of
                      Some bias \<Rightarrow>
                        SetUpOpNodes ''conv_transpose'' [x, w, bias] out
                          [x_backward_function, w_backward_function, b_backward_function]
                    | None \<Rightarrow>
                        SetUpOpNodes ''conv_transpose'' [x, w] out
                          [x_backward_function, w_backward_function])"

subsection \<open>Running a call\<close>

definition step :: "Env \<Rightarrow> Call \<Rightarrow> Step" where
  "step env c =
     (case c of
        ConvCall x w b stride pad cover_all \<Rightarrow> Conv_step env x w b stride pad cover_all
      | ConvTransposeCall x w b stride pad out_size \<Rightarrow>
          ConvTranspose_step env x w b stride pad out_size
      | ConvGradWCall w_dtype w_shape x gy stride pad cover_all \<Rightarrow>
          ConvGradW_step env w_dtype w_shape x gy stride pad cover_all
      | SumCall a axis keepdims \<Rightarrow> Extern (Sum env a axis keepdims)
      | Abort e \<Rightarrow> Fail e)"

primcorec exec :: "Env \<Rightarrow> Call \<Rightarrow> Result" where
  "exec env c =
     (case step env c of
        Fail e \<Rightarrow> Err e
      | Extern r \<Rightarrow> r
      | SetUpOpNodes name ins out' fs \<Rightarrow> Ok out' name ins (map (\<lambda>f. exec env \<circ> f) fs))"

definition ConvGradW ::
  "Env \<Rightarrow> Dtype \<Rightarrow> int64 list \<Rightarrow> Array \<Rightarrow> Array \<Rightarrow> int64 list \<Rightarrow> int64 list \<Rightarrow> bool \<Rightarrow> Result" where
  "ConvGradW env w_dtype w_shape x gy stride pad cover_all =
     exec env (ConvGradWCall w_dtype w_shape x gy stride pad cover_all)"

definition Conv ::
  "Env \<Rightarrow> Array \<Rightarrow> Array \<Rightarrow> Array option \<Rightarrow> int64 list \<Rightarrow> int64 list \<Rightarrow> bool \<Rightarrow> Result" where
  "Conv env x w b stride pad cover_all = exec env (ConvCall x w b stride pad cover_all)"

definition ConvTranspose ::
  "Env \<Rightarrow> Array \<Rightarrow> Array \<Rightarrow> Array option \<Rightarrow> int64 list \<Rightarrow> int64 list \<Rightarrow> int64 list option
     \<Rightarrow> Result" where
  "ConvTranspose env x w b stride pad out_size =
     exec env (ConvTransposeCall x w b stride pad out_size)"

subsection \<open>The shape of a reduction, and values for examples\<close>

text \<open>
  Modelled from the spec: \<^verbatim>\<open>Sum(tensor, axes, keep_dims)\<close> of the missing
  \<^verbatim>\<open>xchainer/routines/math.h\<close> reduces over the listed axes. This is the shape of its
  result: a reduced axis disappears, or stays with size 1 when \<open>keep_dims\<close> is set.
\<close>

definition Sum_shape :: "int64 list \<Rightarrow> int64 list \<Rightarrow> bool \<Rightarrow> int64 list" where
  "Sum_shape in_shape axis keepdims =
     (if keepdims
      then map (\<lambda>i. if of_nat i \<in> set axis then 1 else in_shape ! i) [0..<length in_shape]
      else map (\<lambda>i. in_shape ! i) (filter (\<lambda>i. of_nat i \<notin> set axis) [0..<length in_shape]))"

text \<open>
  A device and a \<^verbatim>\<open>Sum\<close> that compute the shape of their result and no contents, and
  arrays given by their shape; the examples below run the routines on them.
\<close>

definition array_of_shape :: "int64 list \<Rightarrow> Array" where
  "array_of_shape s = \<lparr>shape = s, dtype = Float32, device = 0, data = [], graph_ids = []\<rparr>"

definition example_conv_dims ::
  "int64 list \<Rightarrow> int64 list \<Rightarrow> int64 list \<Rightarrow> int64 list \<Rightarrow> bool \<Rightarrow> int64 list" where
  "example_conv_dims in_dims kernel_dims stride pad cover_all =
     map (\<lambda>(i, k, s, p). case GetConvOutDim i k s p cover_all of Inl e \<Rightarrow> 0 | Inr d \<Rightarrow> d)
       (zip in_dims (zip kernel_dims (zip stride pad)))"

definition example_device :: Device where
  "example_device =
     \<lparr>device_Conv = (\<lambda>x w b stride pad cover_all.
        array_of_shape (take 1 (shape x) @ take 1 (shape w)
          @ example_conv_dims (drop 2 (shape x)) (drop 2 (shape w)) stride pad cover_all)),
      device_ConvTranspose = (\<lambda>x w b stride pad out_size.
        array_of_shape (take 1 (shape x) @ take 1 (drop 1 (shape w)) @ out_size)),
      device_ConvGradWeight = (\<lambda>w_dtype w_shape x gy stride pad cover_all.
        (array_of_shape w_shape)\<lparr>dtype := w_dtype\<rparr>)\<rparr>"

definition example_env :: Env where
  "example_env =
     \<lparr>devices = (\<lambda>d. example_device),
      Sum = (\<lambda>a axis keepdims.
               Ok (array_of_shape (Sum_shape (shape a) axis keepdims)) ''sum'' [a] [])\<rparr>"

section \<open>Dimension arithmetic: what the code computes\<close>

subsection \<open>Truncating division and the two roundings\<close>

lemma sdiv_nonneg: "0 \<le> (n::int) \<Longrightarrow> 0 < s \<Longrightarrow> n sdiv s = n div s"
  by (cases "n = 0") (simp_all add: signed_divide_int_def)

lemma neg_div_neg_eq:
  assumes "0 < (s::int)"
  shows "- (- n div s) = (n + s - 1) div s"
proof -
  define q where "q = (n + s - 1) div s"
  define r where "r = (n + s - 1) mod s"
  have r: "0 \<le> r" "r < s" using assms by (simp_all add: r_def)
  have "n + s - 1 = s * q + r" by (simp add: q_def r_def)
  then have "- n = s * (- q) + (s - 1 - r)" by (simp add: algebra_simps)
  moreover have "0 \<le> s - 1 - r" "s - 1 - r < s" using r by simp_all
  ultimately have "- n div s = - q" by (rule int_div_pos_eq)
  then show ?thesis by (simp add: q_def)
qed

lemma ceil_div_eq: "0 < s \<Longrightarrow> ceil_div n s = (n + s - 1) div s"
  unfolding ceil_div_def by (simp add: ceiling_divide_eq_div neg_div_neg_eq)

lemma floor_div_eq: "floor_div n s = n div s"
  unfolding floor_div_def by (simp add: floor_divide_of_int_eq)

lemma div_le_self_int: "0 \<le> (n::int) \<Longrightarrow> 0 < s \<Longrightarrow> n div s \<le> n"
  using zdiv_mono2 [of n 1 s] by simp

lemma mult_div_le_int: "0 < (s::int) \<Longrightarrow> s * (n div s) \<le> n"
  using mult_div_mod_eq [of s n] pos_mod_sign [of s n] by linarith

lemma mult_div_eq_iff_dvd: "0 < (s::int) \<Longrightarrow> s * (n div s) = n \<longleftrightarrow> s dvd n"
  by (metis dvd_mult_div_cancel dvd_triv_left)

subsection \<open>Reading 64-bit results as integers\<close>

lemma sint_of_int_in_range:
  "- (2 ^ 63) \<le> k \<Longrightarrow> k < 2 ^ 63 \<Longrightarrow> sint (word_of_int k :: int64) = k"
  by (simp add: sint_sbintrunc' signed_take_bit_int_eq_self)

lemma word_of_int_eq_in_range:
  assumes "0 \<le> a" "a < 2 ^ 63" "0 \<le> b" "b < 2 ^ 63"
  shows "(word_of_int a = (word_of_int b :: int64)) \<longleftrightarrow> a = b"
proof -
  have "take_bit 64 a = a" "take_bit 64 b = b"
    using assms by (simp_all add: take_bit_int_eq_self)
  then show ?thesis by (simp add: word_of_int_eq_iff)
qed

lemma int64_div_of_int:
  assumes "0 \<le> n" "n < 2 ^ 63" "0 < sint (stride :: int64)"
  shows "int64_div (word_of_int n) stride = Inr (word_of_int (n div sint stride))"
proof -
  have "stride \<noteq> 0" using assms(3) by auto
  moreover have "sint (word_of_int n :: int64) = n"
    using assms by (intro sint_of_int_in_range) simp_all
  ultimately show ?thesis
    using assms by (simp add: int64_div_def sdiv_nonneg)
qed

lemma GetConvOutDim_floor_value:
  fixes in_dim kernel_size stride pad :: int64
  defines "n \<equiv> sint in_dim + 2 * sint pad - sint kernel_size"
  assumes s: "0 < sint stride" and n: "0 \<le> n" and b: "n < 2 ^ 63 - 1"
  shows "GetConvOutDim in_dim kernel_size stride pad False
           = Inr (word_of_int (n div sint stride) + 1)"
proof -
  have w: "in_dim + pad * 2 - kernel_size = word_of_int n"
    by (simp add: n_def)
  have "int64_div (word_of_int n) stride = Inr (word_of_int (n div sint stride))"
    using n b s by (intro int64_div_of_int) simp_all
  then show ?thesis
    unfolding GetConvOutDim_def w by simp
qed

lemma GetConvOutDim_ceil_value:
  fixes in_dim kernel_size stride pad :: int64
  defines "n \<equiv> sint in_dim + 2 * sint pad - sint kernel_size + sint stride - 1"
  assumes s: "0 < sint stride" and n: "0 \<le> n" and b: "n < 2 ^ 63 - 1"
  shows "GetConvOutDim in_dim kernel_size stride pad True
           = Inr (word_of_int (n div sint stride) + 1)"
proof -
  have w: "in_dim + pad * 2 - kernel_size + stride - 1 = word_of_int n"
    by (simp add: n_def)
  have "int64_div (word_of_int n) stride = Inr (word_of_int (n div sint stride))"
    using n b s by (intro int64_div_of_int) simp_all
  then show ?thesis
    unfolding GetConvOutDim_def w by simp
qed

lemma sint_GetConvTransposeOutDim:
  fixes in_dim kernel_size stride pad :: int64
  assumes "1 \<le> sint in_dim" "0 \<le> sint kernel_size" "0 < sint stride" "0 \<le> sint pad"
    and "sint in_dim + 2 * sint pad + sint stride < 2 ^ 63"
    and "sint stride * sint in_dim + sint kernel_size < 2 ^ 63"
  shows "sint (GetConvTransposeOutDim in_dim kernel_size stride pad cover_all)
           = sint stride * (sint in_dim - 1) + sint kernel_size
               - (if cover_all then sint stride - 1 else 0) - 2 * sint pad"
proof -
  let ?v = "sint stride * (sint in_dim - 1) + sint kernel_size
               - (if cover_all then sint stride - 1 else 0) - 2 * sint pad"
  have w: "GetConvTransposeOutDim in_dim kernel_size stride pad cover_all = word_of_int ?v"
    by (simp add: GetConvTransposeOutDim_def)
  have m: "sint stride * (sint in_dim - 1) = sint stride * sint in_dim - sint stride"
    by (simp add: algebra_simps)
  have "sint stride * 1 \<le> sint stride * sint in_dim"
    using assms(1,3) by (intro mult_left_mono) simp_all
  then have nn: "0 \<le> sint stride * sint in_dim - sint stride" by simp
  have lo: "- (2 ^ 63) \<le> ?v"
  proof (cases cover_all)
    case True
    show ?thesis unfolding m using nn assms(1-5) by (simp only: True if_True; linarith)
  next
    case False
    show ?thesis unfolding m using nn assms(1-5) by (simp only: False if_False; linarith)
  qed
  have hi: "?v < 2 ^ 63"
  proof (cases cover_all)
    case True
    show ?thesis unfolding m using assms(1-4,6) by (simp only: True if_True; linarith)
  next
    case False
    show ?thesis unfolding m using assms(1-4,6) by (simp only: False if_False; linarith)
  qed
  show ?thesis unfolding w using lo hi by (rule sint_of_int_in_range)
qed

lemma sdiv_bounds:
  assumes "0 < (s::int)"
  shows "min 0 n \<le> n sdiv s \<and> n sdiv s \<le> max 0 n"
proof -
  have a: "0 \<le> \<bar>n\<bar> div s" using assms by (simp add: pos_imp_zdiv_nonneg_iff)
  have b: "\<bar>n\<bar> div s \<le> \<bar>n\<bar>" using assms by (intro div_le_self_int) simp_all
  have "n sdiv s = sgn n * (\<bar>n\<bar> div s)"
    using assms by (simp add: signed_divide_int_def)
  then show ?thesis
    using a b by (cases "n < 0"; cases "n = 0") simp_all
qed

lemma sint_lt_int64: "sint (w :: int64) < 2 ^ 63"
  using sint_lt [of w] by simp

lemma GetConvOutDim_trunc_value:
  fixes in_dim kernel_size stride pad :: int64 and cover_all :: bool
  defines "n \<equiv> sint in_dim + 2 * sint pad - sint kernel_size
                 + (if cover_all then sint stride - 1 else 0)"
  assumes s: "0 < sint stride" and lo: "- (2 ^ 63) < n" and hi: "n < 2 ^ 63 - 1"
  shows "\<exists>r. GetConvOutDim in_dim kernel_size stride pad cover_all = Inr r \<and>
             sint r = n sdiv sint stride + 1"
proof -
  have w: "(if cover_all then in_dim + pad * 2 - kernel_size + stride - 1
            else in_dim + pad * 2 - kernel_size) = word_of_int n"
    by (simp add: n_def)
  have s0: "stride \<noteq> 0" using s by auto
  have sn: "sint (word_of_int n :: int64) = n"
    using lo hi by (intro sint_of_int_in_range) simp_all
  have d: "int64_div (word_of_int n) stride = Inr (word_of_int (n sdiv sint stride))"
    unfolding int64_div_def sn using s0 by simp
  have "min 0 n \<le> n sdiv sint stride \<and> n sdiv sint stride \<le> max 0 n"
    using s by (rule sdiv_bounds)
  then have "- (2 ^ 63) \<le> n sdiv sint stride + 1" "n sdiv sint stride + 1 < 2 ^ 63"
    using lo hi by linarith+
  then have "sint (word_of_int (n sdiv sint stride + 1) :: int64) = n sdiv sint stride + 1"
    by (rule sint_of_int_in_range)
  then have q: "sint (word_of_int (n sdiv sint stride) + 1 :: int64) = n sdiv sint stride + 1"
    by simp
  have "GetConvOutDim in_dim kernel_size stride pad cover_all
          = Inr (word_of_int (n sdiv sint stride) + 1)"
  proof (cases cover_all)
    case True
    with w have "in_dim + pad * 2 - kernel_size + stride - 1 = word_of_int n" by simp
    with d True show ?thesis by (simp add: GetConvOutDim_def)
  next
    case False
    with w have "in_dim + pad * 2 - kernel_size = word_of_int n" by simp
    with d False show ?thesis by (simp add: GetConvOutDim_def)
  qed
  with q show ?thesis by simp
qed

text \<open>
  Claim C3, as amended. For non-negative \<open>in\<close>, \<open>kernel\<close> and \<open>pad\<close>, positive
  \<open>stride\<close>, and operands small enough that the 64-bit arithmetic does not overflow
  (\<open>in + 2 * pad + stride < 2^63\<close>), \<^const>\<open>GetConvOutDim\<close> returns
  \<open>(in + 2 * pad - kernel + stride - 1) / stride + 1\<close> when \<open>cover_all\<close> is set and
  \<open>(in + 2 * pad - kernel) / stride + 1\<close> when it is not, with the division that
  truncates towards zero. Where \<open>kernel \<le> in + 2 * pad\<close>, the first is
  \<open>ceil_div (in + 2 * pad - kernel) stride + 1\<close> and the second is
  \<open>floor_div (in + 2 * pad - kernel) stride + 1\<close>.
  \<^const>\<open>GetConvTransposeOutDim\<close> returns \<open>stride * (in - 1) + kernel - stride + 1 - 2 * pad\<close>
  when \<open>cover_all\<close> is set and \<open>stride * (in - 1) + kernel - 2 * pad\<close> when it is not, as
  64-bit values, and as integers when \<open>in \<ge> 1\<close> and \<open>stride * in + kernel < 2^63\<close>.
\<close>

theorem GetConvOutDim_formulas:
  fixes in_dim kernel_size stride pad :: int64
  assumes "0 \<le> sint in_dim" "0 \<le> sint kernel_size" "0 < sint stride" "0 \<le> sint pad"
    and "sint in_dim + 2 * sint pad + sint stride < 2 ^ 63"
  shows "(\<exists>r. GetConvOutDim in_dim kernel_size stride pad True = Inr r \<and>
            sint r = (sint in_dim + 2 * sint pad - sint kernel_size + sint stride - 1)
                       sdiv sint stride + 1 \<and>
            (sint kernel_size \<le> sint in_dim + 2 * sint pad \<longrightarrow>
               sint r = ceil_div (sint in_dim + 2 * sint pad - sint kernel_size) (sint stride) + 1)) \<and>
         (\<exists>r. GetConvOutDim in_dim kernel_size stride pad False = Inr r \<and>
            sint r = (sint in_dim + 2 * sint pad - sint kernel_size) sdiv sint stride + 1 \<and>
            (sint kernel_size \<le> sint in_dim + 2 * sint pad \<longrightarrow>
               sint r = floor_div (sint in_dim + 2 * sint pad - sint kernel_size) (sint stride) + 1)) \<and>
         GetConvTransposeOutDim in_dim kernel_size stride pad True
           = stride * (in_dim - 1) + kernel_size - stride + 1 - 2 * pad \<and>
         GetConvTransposeOutDim in_dim kernel_size stride pad False
           = stride * (in_dim - 1) + kernel_size - 2 * pad \<and>
         (1 \<le> sint in_dim \<and> sint stride * sint in_dim + sint kernel_size < 2 ^ 63 \<longrightarrow>
            sint (GetConvTransposeOutDim in_dim kernel_size stride pad True)
              = sint stride * (sint in_dim - 1) + sint kernel_size - sint stride + 1 - 2 * sint pad \<and>
            sint (GetConvTransposeOutDim in_dim kernel_size stride pad False)
              = sint stride * (sint in_dim - 1) + sint kernel_size - 2 * sint pad)"
proof -
  let ?m = "sint in_dim + 2 * sint pad - sint kernel_size"
  let ?S = "sint stride"
  have k: "sint kernel_size < 2 ^ 63" by (rule sint_lt_int64)
  have e: "?m + (?S - 1) = ?m + ?S - 1" by simp
  have "\<exists>r. GetConvOutDim in_dim kernel_size stride pad True = Inr r \<and>
             sint r = (?m + (?S - 1)) sdiv ?S + 1"
    using GetConvOutDim_trunc_value [of stride in_dim pad kernel_size True] assms k
    by simp
  then obtain rc where rc: "GetConvOutDim in_dim kernel_size stride pad True = Inr rc"
    and rcv: "sint rc = (?m + ?S - 1) sdiv ?S + 1"
    unfolding e by blast
  obtain rf where rf: "GetConvOutDim in_dim kernel_size stride pad False = Inr rf"
    and rfv: "sint rf = ?m sdiv ?S + 1"
    using GetConvOutDim_trunc_value [of stride in_dim pad kernel_size False] assms k
    by auto
  have cd: "(?m + ?S - 1) sdiv ?S = ceil_div ?m ?S" if "sint kernel_size \<le> sint in_dim + 2 * sint pad"
    using that assms(3) by (simp add: sdiv_nonneg ceil_div_eq)
  have fd: "?m sdiv ?S = floor_div ?m ?S" if "sint kernel_size \<le> sint in_dim + 2 * sint pad"
    using that assms(3) by (simp add: sdiv_nonneg floor_div_eq)
  have first: "\<exists>r. GetConvOutDim in_dim kernel_size stride pad True = Inr r \<and>
            sint r = (?m + ?S - 1) sdiv ?S + 1 \<and>
            (sint kernel_size \<le> sint in_dim + 2 * sint pad \<longrightarrow> sint r = ceil_div ?m ?S + 1)"
    using rc rcv cd by auto
  have second: "\<exists>r. GetConvOutDim in_dim kernel_size stride pad False = Inr r \<and>
            sint r = ?m sdiv ?S + 1 \<and>
            (sint kernel_size \<le> sint in_dim + 2 * sint pad \<longrightarrow> sint r = floor_div ?m ?S + 1)"
    using rf rfv fd by auto
  have third: "GetConvTransposeOutDim in_dim kernel_size stride pad True
           = stride * (in_dim - 1) + kernel_size - stride + 1 - 2 * pad"
    and fourth: "GetConvTransposeOutDim in_dim kernel_size stride pad False
           = stride * (in_dim - 1) + kernel_size - 2 * pad"
    by (simp_all add: GetConvTransposeOutDim_def)
  have fifth: "sint (GetConvTransposeOutDim in_dim kernel_size stride pad True)
              = sint stride * (sint in_dim - 1) + sint kernel_size - sint stride + 1 - 2 * sint pad \<and>
            sint (GetConvTransposeOutDim in_dim kernel_size stride pad False)
              = sint stride * (sint in_dim - 1) + sint kernel_size - 2 * sint pad"
    if "1 \<le> sint in_dim" "sint stride * sint in_dim + sint kernel_size < 2 ^ 63"
    using sint_GetConvTransposeOutDim [OF that(1) assms(2,3,4,5) that(2), of True]
      sint_GetConvTransposeOutDim [OF that(1) assms(2,3,4,5) that(2), of False]
    by simp
  from first second third fourth fifth show ?thesis by blast
qed

theorem GetConvOutDim_formulas_witness:
  "0 \<le> sint (6 :: int64) \<and> 0 \<le> sint (3 :: int64) \<and> 0 < sint (2 :: int64) \<and>
   0 \<le> sint (0 :: int64) \<and>
   sint (6 :: int64) + 2 * sint (0 :: int64) + sint (2 :: int64) < 2 ^ 63 \<and>
   sint (3 :: int64) \<le> sint (6 :: int64) + 2 * sint (0 :: int64) \<and>
   GetConvOutDim 6 3 2 0 True = Inr 3 \<and> GetConvOutDim 6 3 2 0 False = Inr 2 \<and>
   ceil_div 3 2 + 1 = 3 \<and> floor_div 3 2 + 1 = 2 \<and>
   GetConvTransposeOutDim 6 3 2 0 True = 12 \<and> GetConvTransposeOutDim 6 3 2 0 False = 13"
  using GetConvOutDim_formulas [of 6 3 2 0]
  by (auto simp: GetConvOutDim_def int64_div_def signed_divide_int_def)

text \<open>
  The claim as stated fails where \<open>kernel > in + 2 * pad\<close>: at \<open>in = 1\<close>, \<open>kernel = 4\<close>,
  \<open>stride = 2\<close>, \<open>pad = 0\<close>, all non-negative, the truncating division gives
  \<open>-3 / 2 + 1 = 0\<close>, while \<open>floor_div (-3) 2 + 1 = -1\<close>.
\<close>

theorem GetConvOutDim_formulas_counterexample:
  "0 \<le> sint (1 :: int64) \<and> 0 \<le> sint (4 :: int64) \<and> 0 < sint (2 :: int64) \<and>
   0 \<le> sint (0 :: int64) \<and>
   GetConvOutDim 1 4 2 0 False = Inr 0 \<and>
   sint (0 :: int64)
     \<noteq> floor_div (sint (1 :: int64) + 2 * sint (0 :: int64) - sint (4 :: int64))
         (sint (2 :: int64)) + 1"
  by (simp add: GetConvOutDim_def int64_div_def signed_divide_int_def floor_div_eq)

subsection \<open>The round trip\<close>

lemma shift_eq_ceil:
  fixes a :: int64
  shows "a + k - s + 1 - 2 * p = i \<longleftrightarrow> a = i + 2 * p - k + s - 1"
  by (auto simp: algebra_simps)

lemma shift_eq_floor:
  fixes a :: int64
  shows "a + k - 2 * p = i \<longleftrightarrow> a = i + 2 * p - k"
  by (auto simp: algebra_simps)

lemma roundtrip_core:
  fixes stride :: int64
  assumes "0 \<le> n" "n < 2 ^ 63" "0 < sint stride"
  shows "stride * word_of_int (n div sint stride) = word_of_int n \<longleftrightarrow> sint stride dvd n"
proof -
  let ?S = "sint stride"
  have "stride * word_of_int (n div ?S) = word_of_int (?S * (n div ?S))" by simp
  moreover have "0 \<le> ?S * (n div ?S)"
    using assms by (simp add: pos_imp_zdiv_nonneg_iff)
  moreover have "?S * (n div ?S) \<le> n"
    using assms by (intro mult_div_le_int)
  ultimately show ?thesis
    using assms word_of_int_eq_in_range [of "?S * (n div ?S)" n] mult_div_eq_iff_dvd [of ?S n]
    by simp
qed

text \<open>
  Claim C2, as amended. For valid arguments (\<open>in \<ge> 1\<close>, \<open>kernel \<ge> 1\<close>, \<open>stride \<ge> 1\<close>,
  \<open>pad \<ge> 0\<close>, \<open>in + 2 * pad \<ge> kernel\<close>, and \<open>in + 2 * pad + stride < 2^63\<close> so that the
  64-bit arithmetic does not overflow), \<^const>\<open>GetConvOutDim\<close> returns a value, and
  \<^const>\<open>GetConvTransposeOutDim\<close> maps it back to \<open>in\<close> exactly when \<open>stride\<close> divides
  the numerator of the division: \<open>in + 2 * pad - kernel\<close> without \<open>cover_all\<close>,
  \<open>in + 2 * pad - kernel + stride - 1\<close> with it.
\<close>

theorem ConvOutDim_roundtrip:
  fixes in_dim kernel_size stride pad :: int64
  assumes "1 \<le> sint in_dim" "1 \<le> sint kernel_size" "1 \<le> sint stride" "0 \<le> sint pad"
    and "sint kernel_size \<le> sint in_dim + 2 * sint pad"
    and "sint in_dim + 2 * sint pad + sint stride < 2 ^ 63"
  shows "\<exists>r. GetConvOutDim in_dim kernel_size stride pad cover_all = Inr r \<and>
           (GetConvTransposeOutDim r kernel_size stride pad cover_all = in_dim \<longleftrightarrow>
            sint stride dvd (sint in_dim + 2 * sint pad - sint kernel_size
                              + (if cover_all then sint stride - 1 else 0)))"
proof (cases cover_all)
  case True
  let ?n = "sint in_dim + 2 * sint pad - sint kernel_size + sint stride - 1"
  have r: "GetConvOutDim in_dim kernel_size stride pad True
             = Inr (word_of_int (?n div sint stride) + 1)"
    using assms by (intro GetConvOutDim_ceil_value) simp_all
  have in_eq: "word_of_int ?n = in_dim + 2 * pad - kernel_size + stride - 1" by simp
  have "stride * word_of_int (?n div sint stride) = word_of_int ?n \<longleftrightarrow> sint stride dvd ?n"
    using assms by (intro roundtrip_core) simp_all
  then have "GetConvTransposeOutDim (word_of_int (?n div sint stride) + 1) kernel_size stride pad True
               = in_dim \<longleftrightarrow> sint stride dvd ?n"
    unfolding GetConvTransposeOutDim_def in_eq by (simp add: shift_eq_ceil)
  with r True show ?thesis by (simp add: algebra_simps)
next
  case False
  let ?n = "sint in_dim + 2 * sint pad - sint kernel_size"
  have r: "GetConvOutDim in_dim kernel_size stride pad False
             = Inr (word_of_int (?n div sint stride) + 1)"
    using assms by (intro GetConvOutDim_floor_value) simp_all
  have in_eq: "word_of_int ?n = in_dim + 2 * pad - kernel_size" by simp
  have "stride * word_of_int (?n div sint stride) = word_of_int ?n \<longleftrightarrow> sint stride dvd ?n"
    using assms by (intro roundtrip_core) simp_all
  then have "GetConvTransposeOutDim (word_of_int (?n div sint stride) + 1) kernel_size stride pad False
               = in_dim \<longleftrightarrow> sint stride dvd ?n"
    unfolding GetConvTransposeOutDim_def in_eq by (simp add: shift_eq_floor)
  with r False show ?thesis by simp
qed

theorem ConvOutDim_roundtrip_witness:
  "1 \<le> sint (7 :: int64) \<and> 1 \<le> sint (3 :: int64) \<and> 1 \<le> sint (2 :: int64) \<and>
   0 \<le> sint (0 :: int64) \<and> sint (3 :: int64) \<le> sint (7 :: int64) + 2 * sint (0 :: int64) \<and>
   sint (7 :: int64) + 2 * sint (0 :: int64) + sint (2 :: int64) < 2 ^ 63 \<and>
   sint (2 :: int64) dvd sint (7 :: int64) + 2 * sint (0 :: int64) - sint (3 :: int64) \<and>
   GetConvOutDim 7 3 2 0 False = Inr 3 \<and> GetConvTransposeOutDim 3 3 2 0 False = 7 \<and>
   GetConvOutDim 6 3 2 0 True = Inr 3 \<and> GetConvTransposeOutDim 3 3 2 0 True = 6"
  using ConvOutDim_roundtrip [of 7 3 2 0 False] ConvOutDim_roundtrip [of 6 3 2 0 True]
  by (auto simp: GetConvOutDim_def int64_div_def signed_divide_int_def)

text \<open>
  The claim as stated fails where \<open>stride\<close> does not divide the numerator: \<open>in = 6\<close>,
  \<open>kernel = 3\<close>, \<open>stride = 2\<close>, \<open>pad = 0\<close> are valid, the convolution output size is 2,
  and the transposed size of 2 is 5.
\<close>

theorem ConvOutDim_roundtrip_counterexample:
  "1 \<le> sint (6 :: int64) \<and> 1 \<le> sint (3 :: int64) \<and> 1 \<le> sint (2 :: int64) \<and>
   0 \<le> sint (0 :: int64) \<and> sint (3 :: int64) \<le> sint (6 :: int64) + 2 * sint (0 :: int64) \<and>
   GetConvOutDim 6 3 2 0 False = Inr 2 \<and> GetConvTransposeOutDim 2 3 2 0 False \<noteq> 6"
  by (simp add: GetConvOutDim_def GetConvTransposeOutDim_def int64_div_def signed_divide_int_def)

section \<open>The routines and their backward functions\<close>

subsection \<open>Running one call\<close>

lemma exec_SetUpOpNodes:
  "step env c = SetUpOpNodes name ins out' fs \<Longrightarrow>
   exec env c = Ok out' name ins (map (\<lambda>f. exec env \<circ> f) fs)"
  by (simp add: exec.code)

lemma exec_Fail: "step env c = Fail e \<Longrightarrow> exec env c = Err e"
  by (simp add: exec.code)

lemma exec_Extern: "step env c = Extern r \<Longrightarrow> exec env c = r"
  by (simp add: exec.code)

lemma AsConstant_Nil: "AsConstant a [] = a"
  by (simp add: AsConstant_def)

lemma AsConstant_disjoint:
  assumes "set (graph_ids a) \<inter> set ids = {}"
  shows "AsConstant a ids = a"
proof -
  have "filter (\<lambda>g. g \<notin> set ids) (graph_ids a) = graph_ids a"
    using assms by (intro filter_True) auto
  then show ?thesis by (simp add: AsConstant_def)
qed

lemma Conv_unfold:
  "Conv env x w b stride pad cover_all =
     Ok (device_Conv (devices env (device x)) x w b stride pad cover_all) ''conv''
        (case b of Some bias \<Rightarrow> [x, w, bias] | None \<Rightarrow> [x, w])
        (map (\<lambda>f. exec env \<circ> f)
          ([Conv_x_backward_function (shape x) w stride pad,
            Conv_w_backward_function (dtype w) (shape w) x stride pad cover_all]
           @ (case b of Some bias \<Rightarrow> [b_backward_function] | None \<Rightarrow> [])))"
  unfolding Conv_def
  by (cases b) (simp_all add: exec_SetUpOpNodes step_def Conv_step_def)

lemma b_backward_axis_loop_eq:
  "b_backward_axis_loop i ndim axis = axis @ map of_nat [i..<ndim]"
proof (induction i ndim axis rule: b_backward_axis_loop.induct)
  case (1 i ndim axis)
  show ?case
  proof (cases "i < ndim")
    case True
    then show ?thesis
      using "1.IH" by (subst b_backward_axis_loop.simps) (simp add: upt_conv_Cons)
  next
    case False
    then show ?thesis by (subst b_backward_axis_loop.simps) simp
  qed
qed

lemma exec_b_backward_function:
  "exec env (b_backward_function (gout, ids))
     = Sum env gout (0 # map of_nat [2..<length (shape gout)]) False"
  by (simp add: b_backward_function_def b_backward_axis_loop_eq exec_Extern step_def)

lemma ConvGradW_unfold:
  "ConvGradW env w_dtype w_shape x gy stride pad cover_all =
     (if 2 < length w_shape \<and> length (shape x) = length w_shape \<and>
         length (shape gy) = length w_shape \<and> length stride = length w_shape - 2 \<and>
         length pad = length w_shape - 2
      then Ok (device_ConvGradWeight (devices env (device x)) w_dtype w_shape x gy stride pad
                 cover_all)
              ''conv-grad-weight'' [x, gy]
              (map (\<lambda>f. exec env \<circ> f)
                 [ConvGradW_x_backward_function (shape x) gy stride pad,
                  ConvGradW_gy_backward_function x stride pad cover_all])
      else Err AssertionFailed)"
proof -
  have "step env (ConvGradWCall w_dtype w_shape x gy stride pad cover_all) =
     (if 2 < length w_shape \<and> length (shape x) = length w_shape \<and>
         length (shape gy) = length w_shape \<and> length stride = length w_shape - 2 \<and>
         length pad = length w_shape - 2
      then SetUpOpNodes ''conv-grad-weight'' [x, gy]
             (device_ConvGradWeight (devices env (device x)) w_dtype w_shape x gy stride pad
                 cover_all)
             [ConvGradW_x_backward_function (shape x) gy stride pad,
              ConvGradW_gy_backward_function x stride pad cover_all]
      else Fail AssertionFailed)"
    by (auto simp: step_def ConvGradW_step_def Let_def)
  then show ?thesis
    unfolding ConvGradW_def by (simp add: exec_SetUpOpNodes exec_Fail)
qed

lemma ConvTranspose_unfold:
  "ConvTranspose env x w b stride pad out_size =
     (case ConvTranspose_real_out_size x w stride pad out_size of
        Inl e \<Rightarrow> Err e
      | Inr real_out_size \<Rightarrow>
          (case ConvTranspose_cover_all x w real_out_size stride pad of
             Inl e \<Rightarrow> Err e
           | Inr cover_all \<Rightarrow>
               Ok (device_ConvTranspose (devices env (device x)) x w b stride pad real_out_size)
                  ''conv_transpose''
                  (case b of Some bias \<Rightarrow> [x, w, bias] | None \<Rightarrow> [x, w])
                  (map (\<lambda>f. exec env \<circ> f)
                     ([ConvTranspose_x_backward_function w stride pad cover_all,
                       ConvTranspose_w_backward_function (dtype w) (shape w) x stride pad
                         cover_all]
                      @ (case b of Some bias \<Rightarrow> [b_backward_function] | None \<Rightarrow> [])))))"
  unfolding ConvTranspose_def
  by (simp add: exec.code step_def ConvTranspose_step_def Let_def
           split: sum.splits option.splits)


lemma GetConvOutDim_error: "GetConvOutDim a b c d f = Inl e \<Longrightarrow> e = DivisionByZero"
  by (auto simp: GetConvOutDim_def int64_div_def split: if_splits)

lemma at_index_error: "at_index xs i = Inl e \<Longrightarrow> e = IndexOutOfRange"
  by (auto simp: at_index_def split: if_splits)

lemma out_size_loop_error:
  "ConvTranspose_out_size_loop x_shape w_shape stride pad ndim i acc = Inl e
     \<Longrightarrow> e = IndexOutOfRange"
proof (induction x_shape w_shape stride pad ndim i acc
        rule: ConvTranspose_out_size_loop.induct)
  case (1 x_shape w_shape stride pad ndim i real_out_size)
  from "1.prems" show ?case
    by (subst (asm) ConvTranspose_out_size_loop.simps)
       (auto split: if_splits sum.splits dest: at_index_error "1.IH")
qed

lemma cover_all_loop_error:
  "ConvTranspose_cover_all_loop x_shape w_shape real_out_size stride pad i = Inl e
     \<Longrightarrow> e = IndexOutOfRange \<or> e = DivisionByZero"
proof (induction x_shape w_shape real_out_size stride pad i
        rule: ConvTranspose_cover_all_loop.induct)
  case (1 x_shape w_shape real_out_size stride pad i)
  from "1.prems" show ?case
    by (subst (asm) ConvTranspose_cover_all_loop.simps)
       (auto split: if_splits sum.splits dest: at_index_error GetConvOutDim_error "1.IH")
qed

lemma ConvTranspose_no_assertion:
  "ConvTranspose env x w b stride pad out_size \<noteq> Err AssertionFailed"
proof
  assume a: "ConvTranspose env x w b stride pad out_size = Err AssertionFailed"
  show False
  proof (cases "ConvTranspose_real_out_size x w stride pad out_size")
    case (Inl e)
    then have "e = IndexOutOfRange"
      by (auto simp: ConvTranspose_real_out_size_def split: option.splits
               dest: out_size_loop_error)
    with a Inl show False by (simp add: ConvTranspose_unfold)
  next
    case (Inr ros)
    show False
    proof (cases "ConvTranspose_cover_all x w ros stride pad")
      case (Inl e)
      then have "e = IndexOutOfRange \<or> e = DivisionByZero"
        by (auto simp: ConvTranspose_cover_all_def dest: cover_all_loop_error)
      with a Inl Inr show False by (auto simp: ConvTranspose_unfold)
    next
      case Inr2: (Inr c)
      with a Inr show False by (simp add: ConvTranspose_unfold)
    qed
  qed
qed

lemma exec_Conv_x_backward_function:
  assumes "2 \<le> length x_shape"
  shows "exec env (Conv_x_backward_function x_shape w stride pad (gout, ids))
           = ConvTranspose env gout (AsConstant w ids) None stride pad (Some (drop 2 x_shape))"
  using assms by (simp add: Conv_x_backward_function_def spatial_dims_def ConvTranspose_def)

lemma exec_Conv_w_backward_function:
  "exec env (Conv_w_backward_function w_dtype w_shape x stride pad cover_all (gout, ids))
     = ConvGradW env w_dtype w_shape (AsConstant x ids) gout stride pad cover_all"
  by (simp add: Conv_w_backward_function_def ConvGradW_def)

lemma exec_ConvGradW_x_backward_function:
  assumes "2 \<le> length x_shape" "length x_shape - 2 = length stride"
  shows "exec env (ConvGradW_x_backward_function x_shape gy stride pad (gout, ids))
           = ConvTranspose env (AsConstant gy ids) gout None stride pad (Some (drop 2 x_shape))"
  using assms
  by (simp add: ConvGradW_x_backward_function_def spatial_dims_def ConvTranspose_def)

lemma exec_ConvGradW_gy_backward_function:
  "exec env (ConvGradW_gy_backward_function x stride pad cover_all (gout, ids))
     = Conv env (AsConstant x ids) gout None stride pad cover_all"
  by (simp add: ConvGradW_gy_backward_function_def Conv_def)

lemma exec_ConvTranspose_x_backward_function:
  "exec env (ConvTranspose_x_backward_function w stride pad cover_all (gout, ids))
     = Conv env gout (AsConstant w ids) None stride pad cover_all"
  by (simp add: ConvTranspose_x_backward_function_def Conv_def)

lemma exec_ConvTranspose_w_backward_function:
  "exec env (ConvTranspose_w_backward_function w_dtype w_shape x stride pad cover_all (gout, ids))
     = ConvGradW env w_dtype w_shape gout (AsConstant x ids) stride pad cover_all"
  by (simp add: ConvTranspose_w_backward_function_def ConvGradW_def)

lemma ConvTranspose_not_Err:
  assumes "\<not> is_Err (ConvTranspose env x w b stride pad out_size)"
  shows "\<exists>real_out_size cover_all.
    ConvTranspose_real_out_size x w stride pad out_size = Inr real_out_size \<and>
    ConvTranspose_cover_all x w real_out_size stride pad = Inr cover_all \<and>
    ConvTranspose env x w b stride pad out_size =
       Ok (device_ConvTranspose (devices env (device x)) x w b stride pad real_out_size)
          ''conv_transpose''
          (case b of Some bias \<Rightarrow> [x, w, bias] | None \<Rightarrow> [x, w])
          (map (\<lambda>f. exec env \<circ> f)
             ([ConvTranspose_x_backward_function w stride pad cover_all,
               ConvTranspose_w_backward_function (dtype w) (shape w) x stride pad cover_all]
              @ (case b of Some bias \<Rightarrow> [b_backward_function] | None \<Rightarrow> [])))"
  using assms by (auto simp: ConvTranspose_unfold split: sum.splits)

subsection \<open>The loops of \<^verbatim>\<open>ConvTranspose\<close>\<close>

lemma out_size_loop_eq:
  assumes "ndim = int (length x_shape) - 2" "length x_shape \<le> length w_shape"
    and "length x_shape - 2 \<le> length stride" "length x_shape - 2 \<le> length pad"
  shows "ConvTranspose_out_size_loop x_shape w_shape stride pad ndim i acc
           = Inr (acc @ map (\<lambda>j. GetConvTransposeOutDim (x_shape ! (j + 2)) (w_shape ! (j + 2))
                                    (stride ! j) (pad ! j) False)
                          [i..<length x_shape - 2])"
  using assms
proof (induction x_shape w_shape stride pad ndim i acc
        rule: ConvTranspose_out_size_loop.induct)
  case (1 x_shape w_shape stride pad ndim i real_out_size)
  show ?case
  proof (cases "int i < ndim")
    case True
    then have i: "i < length x_shape - 2" using "1.prems"(1) by auto
    then have ix: "at_index x_shape (i + 2) = Inr (x_shape ! (i + 2))"
      and iw: "at_index w_shape (i + 2) = Inr (w_shape ! (i + 2))"
      and ist: "at_index stride i = Inr (stride ! i)"
      and ip: "at_index pad i = Inr (pad ! i)"
      using "1.prems" by (auto simp: at_index_def)
    have "ConvTranspose_out_size_loop x_shape w_shape stride pad ndim (Suc i)
            (real_out_size @ [GetConvTransposeOutDim (x_shape ! (i + 2)) (w_shape ! (i + 2))
                                (stride ! i) (pad ! i) False])
          = Inr ((real_out_size @ [GetConvTransposeOutDim (x_shape ! (i + 2)) (w_shape ! (i + 2))
                                (stride ! i) (pad ! i) False])
                 @ map (\<lambda>j. GetConvTransposeOutDim (x_shape ! (j + 2)) (w_shape ! (j + 2))
                                    (stride ! j) (pad ! j) False)
                          [Suc i..<length x_shape - 2])"
      using "1.IH" [OF True ix iw ist ip] "1.prems" by simp
    then show ?thesis
      using True i ix iw ist ip
      by (subst ConvTranspose_out_size_loop.simps) (simp add: upt_conv_Cons)
  next
    case False
    then have "\<not> i < length x_shape - 2" using "1.prems"(1) by auto
    with False show ?thesis
      by (subst ConvTranspose_out_size_loop.simps) simp
  qed
qed

lemma out_size_loop_Inr:
  assumes "ConvTranspose_out_size_loop x_shape w_shape stride pad ndim i acc = Inr r"
    and "ndim = int (length x_shape) - 2"
  shows "r = acc @ map (\<lambda>j. GetConvTransposeOutDim (x_shape ! (j + 2)) (w_shape ! (j + 2))
                               (stride ! j) (pad ! j) False)
                     [i..<length x_shape - 2]"
  using assms
proof (induction x_shape w_shape stride pad ndim i acc
        rule: ConvTranspose_out_size_loop.induct)
  case (1 x_shape w_shape stride pad ndim i real_out_size)
  show ?case
  proof (cases "int i < ndim")
    case True
    then have i: "i < length x_shape - 2" using "1.prems"(2) by auto
    from "1.prems"(1) True obtain a b c d where
      ix: "at_index x_shape (i + 2) = Inr a" and iw: "at_index w_shape (i + 2) = Inr b"
      and ist: "at_index stride i = Inr c" and ip: "at_index pad i = Inr d"
      and rec: "ConvTranspose_out_size_loop x_shape w_shape stride pad ndim (Suc i)
                  (real_out_size @ [GetConvTransposeOutDim a b c d False]) = Inr r"
      by (subst (asm) ConvTranspose_out_size_loop.simps) (auto split: sum.splits)
    have v: "a = x_shape ! (i + 2)" "b = w_shape ! (i + 2)" "c = stride ! i" "d = pad ! i"
      using ix iw ist ip by (auto simp: at_index_def split: if_splits)
    have "r = (real_out_size @ [GetConvTransposeOutDim a b c d False])
                @ map (\<lambda>j. GetConvTransposeOutDim (x_shape ! (j + 2)) (w_shape ! (j + 2))
                               (stride ! j) (pad ! j) False)
                     [Suc i..<length x_shape - 2]"
      using "1.IH" [OF True ix iw ist ip rec "1.prems"(2)] .
    then show ?thesis
      using i v by (simp add: upt_conv_Cons)
  next
    case False
    then have "\<not> i < length x_shape - 2" using "1.prems"(2) by auto
    with False "1.prems"(1) show ?thesis
      by (subst (asm) ConvTranspose_out_size_loop.simps) simp
  qed
qed

lemma cover_all_loop_never_False:
  assumes "length real_out_size < length x_shape" "i \<le> length real_out_size"
  shows "ConvTranspose_cover_all_loop x_shape w_shape real_out_size stride pad i \<noteq> Inr False"
  using assms
proof (induction x_shape w_shape real_out_size stride pad i
        rule: ConvTranspose_cover_all_loop.induct)
  case (1 x_shape w_shape real_out_size stride pad i)
  have lt: "i < length x_shape" using "1.prems" by simp
  show ?case
  proof (cases "i < length real_out_size")
    case True
    then have "Suc i \<le> length real_out_size" by simp
    with "1.IH" "1.prems"(1) lt show ?thesis
      by (subst ConvTranspose_cover_all_loop.simps) (auto split: sum.splits)
  next
    case False
    with lt show ?thesis
      by (subst ConvTranspose_cover_all_loop.simps)
         (auto simp: at_index_def split: sum.splits)
  qed
qed

lemma cover_all_loop_step:
  assumes "i < length x_shape" "i < length real_out_size" "i + 2 < length w_shape"
    "i < length stride" "i < length pad"
  shows "ConvTranspose_cover_all_loop x_shape w_shape real_out_size stride pad i =
     (case GetConvOutDim (x_shape ! i) (real_out_size ! i) (w_shape ! (i + 2)) (stride ! i)
             (pad ! i \<noteq> 0) of
        Inl e \<Rightarrow> Inl e
      | Inr d \<Rightarrow> if x_shape ! i \<noteq> d then Inr True
                 else ConvTranspose_cover_all_loop x_shape w_shape real_out_size stride pad (Suc i))"
  using assms
  by (subst ConvTranspose_cover_all_loop.simps) (simp add: at_index_def)

lemma cover_all_loop_past_end:
  assumes "i < length x_shape" "length real_out_size \<le> i"
  shows "ConvTranspose_cover_all_loop x_shape w_shape real_out_size stride pad i
           = Inl IndexOutOfRange"
  using assms
  by (subst ConvTranspose_cover_all_loop.simps) (simp add: at_index_def)

lemma cover_all_loop_reaches_end:
  assumes "length real_out_size < length x_shape"
    and "length real_out_size + 2 \<le> length w_shape"
    and "length real_out_size \<le> length stride" "length real_out_size \<le> length pad"
    and "\<forall>j. i \<le> j \<and> j < length real_out_size \<longrightarrow>
           GetConvOutDim (x_shape ! j) (real_out_size ! j) (w_shape ! (j + 2)) (stride ! j)
             (pad ! j \<noteq> 0) = Inr (x_shape ! j)"
    and "i \<le> length real_out_size"
  shows "ConvTranspose_cover_all_loop x_shape w_shape real_out_size stride pad i
           = Inl IndexOutOfRange"
  using assms
proof (induction "length real_out_size - i" arbitrary: i)
  case 0
  then show ?case by (intro cover_all_loop_past_end) simp_all
next
  case (Suc n)
  then have i: "i < length real_out_size" by simp
  have step: "ConvTranspose_cover_all_loop x_shape w_shape real_out_size stride pad i
        = ConvTranspose_cover_all_loop x_shape w_shape real_out_size stride pad (Suc i)"
    using i Suc.prems by (subst cover_all_loop_step) auto
  have "ConvTranspose_cover_all_loop x_shape w_shape real_out_size stride pad (Suc i)
          = Inl IndexOutOfRange"
    using Suc.hyps(2) Suc.prems i by (intro Suc.hyps(1)) auto
  with step show ?case by simp
qed

lemma cover_all_loop_first_mismatch:
  assumes "j < length x_shape" "j < length real_out_size" "j + 2 < length w_shape"
    "j < length stride" "j < length pad"
    and "\<forall>k. i \<le> k \<and> k < j \<longrightarrow>
           GetConvOutDim (x_shape ! k) (real_out_size ! k) (w_shape ! (k + 2)) (stride ! k)
             (pad ! k \<noteq> 0) = Inr (x_shape ! k)"
    and "GetConvOutDim (x_shape ! j) (real_out_size ! j) (w_shape ! (j + 2)) (stride ! j)
             (pad ! j \<noteq> 0) = Inr d" "d \<noteq> x_shape ! j"
    and "i \<le> j"
  shows "ConvTranspose_cover_all_loop x_shape w_shape real_out_size stride pad i = Inr True"
  using assms
proof (induction "j - i" arbitrary: i)
  case 0
  then have "i = j" by simp
  with 0 show ?case by (subst cover_all_loop_step) auto
next
  case (Suc n)
  then have i: "i < j" by simp
  have step: "ConvTranspose_cover_all_loop x_shape w_shape real_out_size stride pad i
        = ConvTranspose_cover_all_loop x_shape w_shape real_out_size stride pad (Suc i)"
    using i Suc.prems by (subst cover_all_loop_step) auto
  have "ConvTranspose_cover_all_loop x_shape w_shape real_out_size stride pad (Suc i)
          = Inr True"
    using Suc.hyps(2) Suc.prems i by (intro Suc.hyps(1)) auto
  with step show ?case by simp
qed

subsection \<open>Concrete runs\<close>

lemma real_out_size_example:
  "ConvTranspose_real_out_size (array_of_shape [1, 4, 3, 3]) (array_of_shape [4, 3, 3, 3])
     [1, 1] [0, 0] None = Inr [5, 5]"
  by (simp add: ConvTranspose_real_out_size_def array_of_shape_def
        ConvTranspose_out_size_loop.simps at_index_def GetConvTransposeOutDim_def)

lemma cover_all_example:
  "ConvTranspose_cover_all (array_of_shape [1, 4, 3, 3]) (array_of_shape [4, 3, 3, 3])
     [5, 5] [1, 1] [0, 0] = Inr True"
  by (simp add: ConvTranspose_cover_all_def array_of_shape_def
        ConvTranspose_cover_all_loop.simps at_index_def GetConvOutDim_def int64_div_def
        signed_divide_int_def)

lemma ConvTranspose_example_not_Err:
  "\<not> is_Err (ConvTranspose env (array_of_shape [1, 4, 3, 3]) (array_of_shape [4, 3, 3, 3]) b
             [1, 1] [0, 0] (Some [5, 5]))"
  by (simp add: ConvTranspose_unfold ConvTranspose_real_out_size_def cover_all_example)

lemma real_out_size_example_unit:
  "ConvTranspose_real_out_size (array_of_shape [1, 1, 3, 3]) (array_of_shape [1, 1, 3, 3])
     [1, 1] [0, 0] None = Inr [5, 5]"
  by (simp add: ConvTranspose_real_out_size_def array_of_shape_def
        ConvTranspose_out_size_loop.simps at_index_def GetConvTransposeOutDim_def)

lemma cover_all_example_unit:
  "ConvTranspose_cover_all (array_of_shape [1, 1, 3, 3]) (array_of_shape [1, 1, 3, 3])
     [5, 5] [1, 1] [0, 0] = Inl IndexOutOfRange"
  by (simp add: ConvTranspose_cover_all_def array_of_shape_def
        ConvTranspose_cover_all_loop.simps at_index_def GetConvOutDim_def int64_div_def
        signed_divide_int_def)

section \<open>The claims about the routines\<close>

text \<open>
  Claim C4. For every \<^verbatim>\<open>Conv\<close> call on an \<open>x\<close> that has its batch and channel axes, the
  call succeeds, its first input is \<open>x\<close>, and the backward function registered for it,
  applied to an output gradient \<open>gout\<close> and a stop-gradient list, returns
  \<^verbatim>\<open>ConvTranspose(gout, AsConstant(w, stop list), no bias, stride, pad, out_size)\<close> with
  \<open>out_size\<close> the spatial axes of \<open>x\<close>. In particular, for a tensor \<open>ones\<close> and a stop
  list that names no graph of \<open>w\<close> (the empty list is one), it returns what
  \<^verbatim>\<open>ConvTranspose(ones, w, out_size = x.shape[2:])\<close> returns.
\<close>

theorem Conv_x_gradient:
  assumes "2 \<le> length (shape x)"
  shows "\<not> is_Err (Conv env x w b stride pad cover_all) \<and>
         inputs (Conv env x w b stride pad cover_all) ! 0 = x \<and>
         (backward_functions (Conv env x w b stride pad cover_all) ! 0)
             (gout, graph_ids_to_stop_gradient)
           = ConvTranspose env gout (AsConstant w graph_ids_to_stop_gradient) None stride pad
               (Some (drop 2 (shape x))) \<and>
         (set (graph_ids w) \<inter> set graph_ids_to_stop_gradient = {} \<longrightarrow>
            (backward_functions (Conv env x w b stride pad cover_all) ! 0)
                (ones, graph_ids_to_stop_gradient)
              = ConvTranspose env ones w None stride pad (Some (drop 2 (shape x))))"
  using assms
  by (cases b) (simp_all add: Conv_unfold exec_Conv_x_backward_function AsConstant_disjoint)

theorem Conv_x_gradient_witness:
  "2 \<le> length (shape (array_of_shape [1, 3, 5, 5])) \<and>
   set (graph_ids (array_of_shape [4, 3, 3, 3])) \<inter> set [] = {} \<and>
   (backward_functions
      (Conv example_env (array_of_shape [1, 3, 5, 5]) (array_of_shape [4, 3, 3, 3]) None
         [1, 1] [0, 0] False) ! 0) (array_of_shape [1, 4, 3, 3], [])
     = ConvTranspose example_env (array_of_shape [1, 4, 3, 3]) (array_of_shape [4, 3, 3, 3])
         None [1, 1] [0, 0] (Some [5, 5])"
  using Conv_x_gradient [of "array_of_shape [1, 3, 5, 5]" example_env
      "array_of_shape [4, 3, 3, 3]" None "[1, 1]" "[0, 0]" False
      "array_of_shape [1, 4, 3, 3]" "[]" "array_of_shape [1, 4, 3, 3]"]
  by (simp add: AsConstant_Nil array_of_shape_def)

text \<open>
  Claim C5. For every \<^verbatim>\<open>ConvGradW\<close> call that passes its assertions, the inputs are
  \<open>x\<close> and \<open>gy\<close>; the backward function registered for \<open>x\<close> returns
  \<^verbatim>\<open>ConvTranspose(AsConstant(gy, stop list), gout, no bias, stride, pad, out_size)\<close> with
  \<open>out_size\<close> the spatial axes of \<open>x\<close>, and the one registered for \<open>gy\<close> returns
  \<^verbatim>\<open>Conv(AsConstant(x, stop list), gout, no bias, stride, pad, cover_all)\<close> with the
  \<open>cover_all\<close> of the call. In both, \<open>gout\<close> is the second argument, the weight.
\<close>

theorem ConvGradW_gradients:
  assumes "\<not> is_Err (ConvGradW env w_dtype w_shape x gy stride pad cover_all)"
  shows "inputs (ConvGradW env w_dtype w_shape x gy stride pad cover_all) = [x, gy] \<and>
         (backward_functions (ConvGradW env w_dtype w_shape x gy stride pad cover_all) ! 0)
             (gout, graph_ids_to_stop_gradient)
           = ConvTranspose env (AsConstant gy graph_ids_to_stop_gradient) gout None stride pad
               (Some (drop 2 (shape x))) \<and>
         (backward_functions (ConvGradW env w_dtype w_shape x gy stride pad cover_all) ! 1)
             (gout, graph_ids_to_stop_gradient)
           = Conv env (AsConstant x graph_ids_to_stop_gradient) gout None stride pad cover_all"
proof -
  have pre: "2 < length w_shape \<and> length (shape x) = length w_shape \<and>
         length (shape gy) = length w_shape \<and> length stride = length w_shape - 2 \<and>
         length pad = length w_shape - 2"
    using assms by (simp add: ConvGradW_unfold split: if_splits)
  then have "2 \<le> length (shape x)" "length (shape x) - 2 = length stride"
    by simp_all
  then have "exec env (ConvGradW_x_backward_function (shape x) gy stride pad
                         (gout, graph_ids_to_stop_gradient))
             = ConvTranspose env (AsConstant gy graph_ids_to_stop_gradient) gout None stride pad
                 (Some (drop 2 (shape x)))"
    by (rule exec_ConvGradW_x_backward_function)
  then show ?thesis
    using pre by (simp add: ConvGradW_unfold exec_ConvGradW_gy_backward_function)
qed

theorem ConvGradW_gradients_witness:
  "\<not> is_Err (ConvGradW example_env Float32 [4, 3, 3, 3] (array_of_shape [1, 3, 5, 5])
              (array_of_shape [1, 4, 3, 3]) [1, 1] [0, 0] False) \<and>
   (backward_functions
      (ConvGradW example_env Float32 [4, 3, 3, 3] (array_of_shape [1, 3, 5, 5])
         (array_of_shape [1, 4, 3, 3]) [1, 1] [0, 0] False) ! 1)
      (array_of_shape [4, 3, 3, 3], [])
     = Conv example_env (array_of_shape [1, 3, 5, 5]) (array_of_shape [4, 3, 3, 3]) None
         [1, 1] [0, 0] False"
proof -
  have ok: "\<not> is_Err (ConvGradW example_env Float32 [4, 3, 3, 3] (array_of_shape [1, 3, 5, 5])
              (array_of_shape [1, 4, 3, 3]) [1, 1] [0, 0] False)"
    by (simp add: ConvGradW_unfold array_of_shape_def)
  from ConvGradW_gradients [OF ok, of "array_of_shape [4, 3, 3, 3]" "[]"] ok
  show ?thesis by (simp add: AsConstant_Nil)
qed

text \<open>
  Claim C6. For every \<^verbatim>\<open>ConvTranspose\<close> call that returns, with the \<open>cover_all\<close> its
  detection loop produced, the second input is \<open>w\<close> and the backward function
  registered for it returns
  \<^verbatim>\<open>ConvGradW(w.dtype, w.shape, gout, AsConstant(x, stop list), stride, pad, cover_all)\<close>:
  \<open>gout\<close> first, the constant \<open>x\<close> second. The backward function that \<^verbatim>\<open>Conv\<close>
  registers for \<open>w\<close> has the two the other way round.
\<close>

theorem ConvTranspose_w_gradient:
  assumes "\<not> is_Err (ConvTranspose env x w b stride pad out_size)"
  shows "(\<exists>real_out_size cover_all.
            ConvTranspose_real_out_size x w stride pad out_size = Inr real_out_size \<and>
            ConvTranspose_cover_all x w real_out_size stride pad = Inr cover_all \<and>
            inputs (ConvTranspose env x w b stride pad out_size) ! 1 = w \<and>
            (backward_functions (ConvTranspose env x w b stride pad out_size) ! 1)
                (gout, graph_ids_to_stop_gradient)
              = ConvGradW env (dtype w) (shape w) gout (AsConstant x graph_ids_to_stop_gradient)
                  stride pad cover_all) \<and>
         inputs (Conv env x w b stride pad c) ! 1 = w \<and>
         (backward_functions (Conv env x w b stride pad c) ! 1)
             (gout, graph_ids_to_stop_gradient)
           = ConvGradW env (dtype w) (shape w) (AsConstant x graph_ids_to_stop_gradient) gout
               stride pad c"
proof -
  from ConvTranspose_not_Err [OF assms]
  obtain real_out_size cover_all where
    r: "ConvTranspose_real_out_size x w stride pad out_size = Inr real_out_size"
    and c: "ConvTranspose_cover_all x w real_out_size stride pad = Inr cover_all"
    and u: "ConvTranspose env x w b stride pad out_size =
       Ok (device_ConvTranspose (devices env (device x)) x w b stride pad real_out_size)
          ''conv_transpose''
          (case b of Some bias \<Rightarrow> [x, w, bias] | None \<Rightarrow> [x, w])
          (map (\<lambda>f. exec env \<circ> f)
             ([ConvTranspose_x_backward_function w stride pad cover_all,
               ConvTranspose_w_backward_function (dtype w) (shape w) x stride pad cover_all]
              @ (case b of Some bias \<Rightarrow> [b_backward_function] | None \<Rightarrow> [])))"
    by blast
  have t: "inputs (ConvTranspose env x w b stride pad out_size) ! 1 = w \<and>
           (backward_functions (ConvTranspose env x w b stride pad out_size) ! 1)
                (gout, graph_ids_to_stop_gradient)
              = ConvGradW env (dtype w) (shape w) gout (AsConstant x graph_ids_to_stop_gradient)
                  stride pad cover_all"
    unfolding u by (cases b) (simp_all add: exec_ConvTranspose_w_backward_function)
  have v: "inputs (Conv env x w b stride pad c) ! 1 = w \<and>
         (backward_functions (Conv env x w b stride pad c) ! 1)
             (gout, graph_ids_to_stop_gradient)
           = ConvGradW env (dtype w) (shape w) (AsConstant x graph_ids_to_stop_gradient) gout
               stride pad c"
    by (cases b) (simp_all add: Conv_unfold exec_Conv_w_backward_function)
  from r c t v show ?thesis by blast
qed

theorem ConvTranspose_w_gradient_witness:
  "\<not> is_Err (ConvTranspose example_env (array_of_shape [1, 4, 3, 3])
              (array_of_shape [4, 3, 3, 3]) None [1, 1] [0, 0] (Some [5, 5])) \<and>
   (backward_functions
      (ConvTranspose example_env (array_of_shape [1, 4, 3, 3]) (array_of_shape [4, 3, 3, 3])
         None [1, 1] [0, 0] (Some [5, 5])) ! 1) (array_of_shape [1, 3, 5, 5], [])
     = ConvGradW example_env Float32 [4, 3, 3, 3] (array_of_shape [1, 3, 5, 5])
         (array_of_shape [1, 4, 3, 3]) [1, 1] [0, 0] True"
proof -
  have ok: "\<not> is_Err (ConvTranspose example_env (array_of_shape [1, 4, 3, 3])
              (array_of_shape [4, 3, 3, 3]) None [1, 1] [0, 0] (Some [5, 5]))"
    by (rule ConvTranspose_example_not_Err)
  have d: "dtype (array_of_shape [4, 3, 3, 3]) = Float32"
    "shape (array_of_shape [4, 3, 3, 3]) = [4, 3, 3, 3]"
    by (simp_all add: array_of_shape_def)
  from ConvTranspose_w_gradient [OF ok, of "array_of_shape [1, 3, 5, 5]" "[]" False] ok
  show ?thesis
    by (auto simp: AsConstant_Nil ConvTranspose_real_out_size_def cover_all_example d)
qed

text \<open>
  Claim C7. Where a bias is supplied, the third input of \<^verbatim>\<open>Conv\<close>, and of a
  \<^verbatim>\<open>ConvTranspose\<close> call that returns, is the bias, and the backward function
  registered for it returns \<^verbatim>\<open>Sum(gout, axes, false)\<close> with \<open>axes\<close> axis 0 followed by
  every axis \<open>i\<close> with \<open>2 \<le> i < gout.ndim\<close>. For a gradient of shape \<open>(N, C, H, W)\<close>
  the axes are \<open>(0, 2, 3)\<close>, and a reduction over them has shape \<open>(C)\<close>.
\<close>

theorem bias_gradient:
  "inputs (Conv env x w (Some bias) stride pad cover_all) ! 2 = bias \<and>
   (backward_functions (Conv env x w (Some bias) stride pad cover_all) ! 2)
       (gout, graph_ids_to_stop_gradient)
     = Sum env gout (0 # map of_nat [2..<length (shape gout)]) False \<and>
   (\<not> is_Err (ConvTranspose env x w (Some bias) stride pad out_size) \<longrightarrow>
      inputs (ConvTranspose env x w (Some bias) stride pad out_size) ! 2 = bias \<and>
      (backward_functions (ConvTranspose env x w (Some bias) stride pad out_size) ! 2)
          (gout, graph_ids_to_stop_gradient)
        = Sum env gout (0 # map of_nat [2..<length (shape gout)]) False) \<and>
   (shape gout = [N, C, H, W] \<longrightarrow>
      0 # map of_nat [2..<length (shape gout)] = [0, 2, 3 :: int64] \<and>
      Sum_shape (shape gout) [0, 2, 3] False = [C])"
proof -
  have a: "inputs (Conv env x w (Some bias) stride pad cover_all) ! 2 = bias \<and>
   (backward_functions (Conv env x w (Some bias) stride pad cover_all) ! 2)
       (gout, graph_ids_to_stop_gradient)
     = Sum env gout (0 # map of_nat [2..<length (shape gout)]) False"
    by (simp add: Conv_unfold exec_b_backward_function)
  have b: "inputs (ConvTranspose env x w (Some bias) stride pad out_size) ! 2 = bias \<and>
      (backward_functions (ConvTranspose env x w (Some bias) stride pad out_size) ! 2)
          (gout, graph_ids_to_stop_gradient)
        = Sum env gout (0 # map of_nat [2..<length (shape gout)]) False"
    if "\<not> is_Err (ConvTranspose env x w (Some bias) stride pad out_size)"
    using ConvTranspose_not_Err [OF that]
    by (auto simp: exec_b_backward_function)
  have c: "0 # map of_nat [2..<length (shape gout)] = [0, 2, 3 :: int64] \<and>
      Sum_shape (shape gout) [0, 2, 3] False = [C]"
    if "shape gout = [N, C, H, W]"
    using that by (simp add: Sum_shape_def upt_conv_Cons)
  from a b c show ?thesis by blast
qed

theorem bias_gradient_witness:
  "\<not> is_Err (ConvTranspose example_env (array_of_shape [1, 4, 3, 3])
              (array_of_shape [4, 3, 3, 3]) (Some (array_of_shape [3])) [1, 1] [0, 0]
              (Some [5, 5])) \<and>
   shape (array_of_shape [1, 3, 5, 5]) = [1, 3, 5, 5] \<and>
   (backward_functions
      (ConvTranspose example_env (array_of_shape [1, 4, 3, 3]) (array_of_shape [4, 3, 3, 3])
         (Some (array_of_shape [3])) [1, 1] [0, 0] (Some [5, 5])) ! 2)
      (array_of_shape [1, 3, 5, 5], [])
     = Ok (array_of_shape [3]) ''sum'' [array_of_shape [1, 3, 5, 5]] []"
proof -
  have ok: "\<not> is_Err (ConvTranspose example_env (array_of_shape [1, 4, 3, 3])
              (array_of_shape [4, 3, 3, 3]) (Some (array_of_shape [3])) [1, 1] [0, 0]
              (Some [5, 5]))"
    by (rule ConvTranspose_example_not_Err)
  have s: "shape (array_of_shape [1, 3, 5, 5]) = [1, 3, 5, 5]"
    by (simp add: array_of_shape_def)
  from bias_gradient [of example_env "array_of_shape [1, 4, 3, 3]" "array_of_shape [4, 3, 3, 3]"
      "array_of_shape [3]" "[1, 1]" "[0, 0]" False "array_of_shape [1, 3, 5, 5]" "[]"
      "Some [5, 5]" 1 3 5 5] ok s
  show ?thesis
    by (simp add: example_env_def)
qed

text \<open>
  Claim C8. An output size that the caller supplies is the resolved output size,
  unchanged. Without one, whenever the size is resolved, it has one entry per spatial
  axis of \<open>x\<close>, and entry \<open>i\<close> is
  \<^verbatim>\<open>GetConvTransposeOutDim(x.shape[i + 2], w.shape[i + 2], stride[i], pad[i], false)\<close>;
  it is resolved when \<open>w\<close>, \<open>stride\<close> and \<open>pad\<close> are long enough for the spatial axes
  of \<open>x\<close>. The resolved size is what the device kernel of a \<^verbatim>\<open>ConvTranspose\<close> call
  that returns was given.
\<close>

theorem ConvTranspose_resolved_out_size:
  "ConvTranspose_real_out_size x w stride pad (Some given) = Inr given \<and>
   (\<forall>resolved.
      ConvTranspose_real_out_size x w stride pad None = Inr resolved \<longrightarrow>
        length resolved = length (shape x) - 2 \<and>
        (\<forall>i < length (shape x) - 2.
           resolved ! i =
             GetConvTransposeOutDim (shape x ! (i + 2)) (shape w ! (i + 2)) (stride ! i)
               (pad ! i) False)) \<and>
   (length (shape x) \<le> length (shape w) \<and> length (shape x) - 2 \<le> length stride \<and>
    length (shape x) - 2 \<le> length pad \<longrightarrow>
      (\<exists>real_out_size.
         ConvTranspose_real_out_size x w stride pad None = Inr real_out_size \<and>
         length real_out_size = length (shape x) - 2 \<and>
         (\<forall>i < length (shape x) - 2.
            real_out_size ! i =
              GetConvTransposeOutDim (shape x ! (i + 2)) (shape w ! (i + 2)) (stride ! i)
                (pad ! i) False))) \<and>
   (\<not> is_Err (ConvTranspose env x w b stride pad out_size) \<longrightarrow>
      (\<exists>real_out_size.
         ConvTranspose_real_out_size x w stride pad out_size = Inr real_out_size \<and>
         out (ConvTranspose env x w b stride pad out_size)
           = device_ConvTranspose (devices env (device x)) x w b stride pad real_out_size))"
proof -
  have a: "ConvTranspose_real_out_size x w stride pad (Some given) = Inr given"
    by (simp add: ConvTranspose_real_out_size_def)
  have b: "\<exists>real_out_size.
         ConvTranspose_real_out_size x w stride pad None = Inr real_out_size \<and>
         length real_out_size = length (shape x) - 2 \<and>
         (\<forall>i < length (shape x) - 2.
            real_out_size ! i =
              GetConvTransposeOutDim (shape x ! (i + 2)) (shape w ! (i + 2)) (stride ! i)
                (pad ! i) False)"
    if "length (shape x) \<le> length (shape w) \<and> length (shape x) - 2 \<le> length stride \<and>
        length (shape x) - 2 \<le> length pad"
  proof -
    have "ConvTranspose_out_size_loop (shape x) (shape w) stride pad
            (int (length (shape x)) - 2) 0 []
          = Inr ([] @ map (\<lambda>j. GetConvTransposeOutDim (shape x ! (j + 2)) (shape w ! (j + 2))
                                    (stride ! j) (pad ! j) False)
                          [0..<length (shape x) - 2])"
      using that by (intro out_size_loop_eq) simp_all
    then show ?thesis
      by (simp add: ConvTranspose_real_out_size_def)
  qed
  have c: "\<exists>real_out_size.
         ConvTranspose_real_out_size x w stride pad out_size = Inr real_out_size \<and>
         out (ConvTranspose env x w b stride pad out_size)
           = device_ConvTranspose (devices env (device x)) x w b stride pad real_out_size"
    if "\<not> is_Err (ConvTranspose env x w b stride pad out_size)"
    using ConvTranspose_not_Err [OF that] by auto
  have d: "length resolved = length (shape x) - 2 \<and>
        (\<forall>i < length (shape x) - 2.
           resolved ! i =
             GetConvTransposeOutDim (shape x ! (i + 2)) (shape w ! (i + 2)) (stride ! i)
               (pad ! i) False)"
    if "ConvTranspose_real_out_size x w stride pad None = Inr resolved" for resolved
  proof -
    from that have "ConvTranspose_out_size_loop (shape x) (shape w) stride pad
            (int (length (shape x)) - 2) 0 [] = Inr resolved"
      by (simp add: ConvTranspose_real_out_size_def)
    then have "resolved = [] @ map (\<lambda>j. GetConvTransposeOutDim (shape x ! (j + 2))
                               (shape w ! (j + 2)) (stride ! j) (pad ! j) False)
                     [0..<length (shape x) - 2]"
      by (rule out_size_loop_Inr) simp
    then show ?thesis by simp
  qed
  from a b c d show ?thesis by blast
qed

theorem ConvTranspose_resolved_out_size_witness:
  "ConvTranspose_real_out_size (array_of_shape [1, 4, 3, 3]) (array_of_shape [4, 3, 3, 3])
      [2, 1] [0, 1] None = Inr [7, 3] \<and>
   \<not> is_Err (ConvTranspose example_env (array_of_shape [1, 4, 3, 3])
              (array_of_shape [4, 3, 3, 3]) None [1, 1] [0, 0] (Some [5, 5])) \<and>
   out (ConvTranspose example_env (array_of_shape [1, 4, 3, 3])
              (array_of_shape [4, 3, 3, 3]) None [1, 1] [0, 0] (Some [5, 5]))
     = array_of_shape [1, 3, 5, 5]"
proof -
  have ok: "\<not> is_Err (ConvTranspose example_env (array_of_shape [1, 4, 3, 3])
              (array_of_shape [4, 3, 3, 3]) None [1, 1] [0, 0] (Some [5, 5]))"
    by (rule ConvTranspose_example_not_Err)
  have l: "length (shape (array_of_shape [1, 4, 3, 3])) \<le> length (shape (array_of_shape [4, 3, 3, 3])) \<and>
     length (shape (array_of_shape [1, 4, 3, 3])) - 2 \<le> length [2, 1 :: int64] \<and>
     length (shape (array_of_shape [1, 4, 3, 3])) - 2 \<le> length [0, 1 :: int64]"
    by (simp add: array_of_shape_def)
  have e: "ConvTranspose_real_out_size (array_of_shape [1, 4, 3, 3])
             (array_of_shape [4, 3, 3, 3]) [2, 1] [0, 1] None = Inr [7, 3]"
  proof -
    from ConvTranspose_resolved_out_size [of "array_of_shape [1, 4, 3, 3]"
        "array_of_shape [4, 3, 3, 3]" "[2, 1]" "[0, 1]" "[]" example_env None None] l
    obtain r where r: "ConvTranspose_real_out_size (array_of_shape [1, 4, 3, 3])
             (array_of_shape [4, 3, 3, 3]) [2, 1] [0, 1] None = Inr r"
      and len: "length r = 2"
      and el: "\<forall>i<2. r ! i = GetConvTransposeOutDim ([1, 4, 3, 3] ! (i + 2))
                 ([4, 3, 3, 3] ! (i + 2)) ([2, 1] ! i) ([0, 1] ! i) False"
      by (auto simp: array_of_shape_def)
    from el have "r ! 0 = 7" "r ! 1 = 3"
      by (simp_all add: GetConvTransposeOutDim_def)
    with len have "r = [7, 3]"
      by (cases r; cases "tl r"; cases "tl (tl r)") auto
    with r show ?thesis by simp
  qed
  from ConvTranspose_resolved_out_size [of "array_of_shape [1, 4, 3, 3]"
        "array_of_shape [4, 3, 3, 3]" "[1, 1]" "[0, 0]" "[5, 5]" example_env None "Some [5, 5]"]
    ok e
  show ?thesis
    by (auto simp: example_env_def example_device_def)
       (simp_all add: array_of_shape_def)
qed

text \<open>
  Claim C9. \<^verbatim>\<open>ConvGradW\<close> stops on a failed assertion exactly when one of its
  preconditions is violated: the weight shape has at least one spatial axis
  (\<open>w_shape.ndim - 2 > 0\<close>), \<open>x\<close> and \<open>gy\<close> have that many axes plus 2, and \<open>stride\<close> and
  \<open>pad\<close> have one entry per spatial axis. Under the preconditions the call returns, and
  neither of its backward functions fails an assertion, whatever it is applied to: the
  assertion inside the backward function of \<open>x\<close> holds.
\<close>

theorem ConvGradW_assertions:
  "(ConvGradW env w_dtype w_shape x gy stride pad cover_all = Err AssertionFailed \<longleftrightarrow>
      \<not> (int (length w_shape) - 2 > 0 \<and>
         int (length (shape x)) = int (length w_shape) - 2 + 2 \<and>
         int (length (shape gy)) = int (length w_shape) - 2 + 2 \<and>
         int (length stride) = int (length w_shape) - 2 \<and>
         int (length pad) = int (length w_shape) - 2)) \<and>
   (int (length w_shape) - 2 > 0 \<and>
    int (length (shape x)) = int (length w_shape) - 2 + 2 \<and>
    int (length (shape gy)) = int (length w_shape) - 2 + 2 \<and>
    int (length stride) = int (length w_shape) - 2 \<and>
    int (length pad) = int (length w_shape) - 2 \<longrightarrow>
      \<not> is_Err (ConvGradW env w_dtype w_shape x gy stride pad cover_all) \<and>
      (\<forall>gout ids.
         (backward_functions (ConvGradW env w_dtype w_shape x gy stride pad cover_all) ! 0)
            (gout, ids) \<noteq> Err AssertionFailed \<and>
         (backward_functions (ConvGradW env w_dtype w_shape x gy stride pad cover_all) ! 1)
            (gout, ids) \<noteq> Err AssertionFailed))"
proof -
  let ?pre = "2 < length w_shape \<and> length (shape x) = length w_shape \<and>
         length (shape gy) = length w_shape \<and> length stride = length w_shape - 2 \<and>
         length pad = length w_shape - 2"
  have eq: "(int (length w_shape) - 2 > 0 \<and>
         int (length (shape x)) = int (length w_shape) - 2 + 2 \<and>
         int (length (shape gy)) = int (length w_shape) - 2 + 2 \<and>
         int (length stride) = int (length w_shape) - 2 \<and>
         int (length pad) = int (length w_shape) - 2) \<longleftrightarrow> ?pre"
    by auto
  have a: "ConvGradW env w_dtype w_shape x gy stride pad cover_all = Err AssertionFailed
             \<longleftrightarrow> \<not> ?pre"
    by (simp add: ConvGradW_unfold)
  have b: "\<not> is_Err (ConvGradW env w_dtype w_shape x gy stride pad cover_all)" if ?pre
    using that by (simp add: ConvGradW_unfold)
  have c: "(backward_functions (ConvGradW env w_dtype w_shape x gy stride pad cover_all) ! 0)
            (gout, ids) \<noteq> Err AssertionFailed" if ?pre for gout ids
  proof -
    from that have "2 \<le> length (shape x)" "length (shape x) - 2 = length stride"
      by simp_all
    then have "exec env (ConvGradW_x_backward_function (shape x) gy stride pad (gout, ids))
             = ConvTranspose env (AsConstant gy ids) gout None stride pad
                 (Some (drop 2 (shape x)))"
      by (rule exec_ConvGradW_x_backward_function)
    with that show ?thesis
      by (simp add: ConvGradW_unfold ConvTranspose_no_assertion)
  qed
  have d: "(backward_functions (ConvGradW env w_dtype w_shape x gy stride pad cover_all) ! 1)
            (gout, ids) \<noteq> Err AssertionFailed" if ?pre for gout ids
    using that
    by (simp add: ConvGradW_unfold exec_ConvGradW_gy_backward_function Conv_unfold)
  show ?thesis
    unfolding eq using a b c d by blast
qed

theorem ConvGradW_assertions_witness:
  "\<not> is_Err (ConvGradW example_env Float32 [4, 3, 3, 3] (array_of_shape [1, 3, 5, 5])
              (array_of_shape [1, 4, 3, 3]) [1, 1] [0, 0] False) \<and>
   ConvGradW example_env Float32 [4, 3, 3, 3] (array_of_shape [1, 3, 5, 5])
              (array_of_shape [1, 4, 3, 3]) [1] [0, 0] False = Err AssertionFailed"
  using ConvGradW_assertions [of example_env Float32 "[4, 3, 3, 3]" "array_of_shape [1, 3, 5, 5]"
      "array_of_shape [1, 4, 3, 3]" "[1, 1]" "[0, 0]" False]
    ConvGradW_assertions [of example_env Float32 "[4, 3, 3, 3]" "array_of_shape [1, 3, 5, 5]"
      "array_of_shape [1, 4, 3, 3]" "[1]" "[0, 0]" False]
  by (simp add: array_of_shape_def)

text \<open>
  Claim C10. Take a \<^verbatim>\<open>ConvTranspose\<close> call in which \<open>x\<close> and \<open>w\<close> have the same number of
  axes, at least 2, and the resolved output size, \<open>stride\<close> and \<open>pad\<close> have one entry
  per spatial axis, \<open>x.ndim - 2\<close>. The detection loop runs \<open>i\<close> over all axes of \<open>x\<close>
  and passes \<open>pad[i] \<noteq> 0\<close> as the \<open>cover_all\<close> argument of \<^const>\<open>GetConvOutDim\<close>. If
  no comparison breaks the loop before \<open>i = x.ndim - 2\<close>, the read of
  \<open>real_out_size[i]\<close> there is out of range; if the first comparison that differs is at
  an index \<open>j < x.ndim - 2\<close>, the flag is \<open>true\<close>; the loop never ends with \<open>false\<close>.
  Calls that reach the out-of-range read exist: \<open>x\<close> and \<open>w\<close> of shape \<open>(1, 1, 3, 3)\<close>
  with stride 1 and no padding.
\<close>

theorem cover_all_loop_out_of_range:
  assumes "2 \<le> length (shape x)" "length (shape w) = length (shape x)"
    and "length real_out_size = length (shape x) - 2"
    and "length stride = length (shape x) - 2" "length pad = length (shape x) - 2"
  shows "((\<forall>i < length (shape x) - 2.
             GetConvOutDim (shape x ! i) (real_out_size ! i) (shape w ! (i + 2)) (stride ! i)
               (pad ! i \<noteq> 0) = Inr (shape x ! i)) \<longrightarrow>
            ConvTranspose_cover_all x w real_out_size stride pad = Inl IndexOutOfRange) \<and>
         (\<forall>j < length (shape x) - 2.
            (\<forall>i < j. GetConvOutDim (shape x ! i) (real_out_size ! i) (shape w ! (i + 2))
                        (stride ! i) (pad ! i \<noteq> 0) = Inr (shape x ! i)) \<and>
            (\<exists>d. GetConvOutDim (shape x ! j) (real_out_size ! j) (shape w ! (j + 2))
                    (stride ! j) (pad ! j \<noteq> 0) = Inr d \<and> d \<noteq> shape x ! j) \<longrightarrow>
            ConvTranspose_cover_all x w real_out_size stride pad = Inr True) \<and>
         ConvTranspose_cover_all x w real_out_size stride pad \<noteq> Inr False \<and>
         (\<exists>x' w' stride' pad'.
            length (shape x') = 4 \<and> length (shape w') = 4 \<and> length stride' = 2 \<and>
            length pad' = 2 \<and>
            ConvTranspose env x' w' None stride' pad' None = Err IndexOutOfRange)"
proof -
  have lt: "length real_out_size < length (shape x)"
    using assms by simp
  have a: "ConvTranspose_cover_all x w real_out_size stride pad = Inl IndexOutOfRange"
    if "\<forall>i < length (shape x) - 2.
             GetConvOutDim (shape x ! i) (real_out_size ! i) (shape w ! (i + 2)) (stride ! i)
               (pad ! i \<noteq> 0) = Inr (shape x ! i)"
    unfolding ConvTranspose_cover_all_def
    using lt assms that by (intro cover_all_loop_reaches_end) simp_all
  have b: "ConvTranspose_cover_all x w real_out_size stride pad = Inr True"
    if j: "j < length (shape x) - 2"
      and eq: "\<forall>i < j. GetConvOutDim (shape x ! i) (real_out_size ! i) (shape w ! (i + 2))
                        (stride ! i) (pad ! i \<noteq> 0) = Inr (shape x ! i)"
      and ne: "GetConvOutDim (shape x ! j) (real_out_size ! j) (shape w ! (j + 2))
                    (stride ! j) (pad ! j \<noteq> 0) = Inr d" "d \<noteq> shape x ! j"
    for j d
    unfolding ConvTranspose_cover_all_def
    using j assms eq ne
    by (intro cover_all_loop_first_mismatch [where j = j and d = d]) simp_all
  have c: "ConvTranspose_cover_all x w real_out_size stride pad \<noteq> Inr False"
    unfolding ConvTranspose_cover_all_def
    using lt by (intro cover_all_loop_never_False) simp_all
  have "ConvTranspose env (array_of_shape [1, 1, 3, 3]) (array_of_shape [1, 1, 3, 3]) None
          [1, 1] [0, 0] None = Err IndexOutOfRange"
    by (simp add: ConvTranspose_unfold real_out_size_example_unit cover_all_example_unit)
  then have d: "\<exists>x' w' stride' pad'.
            length (shape x') = 4 \<and> length (shape w') = 4 \<and> length stride' = 2 \<and>
            length pad' = 2 \<and>
            ConvTranspose env x' w' None stride' pad' None = Err IndexOutOfRange"
    by (intro exI [of _ "array_of_shape [1, 1, 3, 3]"] exI [of _ "[1, 1]"] exI [of _ "[0, 0]"])
       (simp add: array_of_shape_def)
  from a b c d show ?thesis by blast
qed

theorem cover_all_loop_out_of_range_witness:
  "length (shape (array_of_shape [1, 1, 3, 3])) = 4 \<and>
   GetConvOutDim 1 5 3 1 (0 \<noteq> (0 :: int64)) = Inr 1 \<and>
   ConvTranspose_cover_all (array_of_shape [1, 1, 3, 3]) (array_of_shape [1, 1, 3, 3])
     [5, 5] [1, 1] [0, 0] = Inl IndexOutOfRange \<and>
   GetConvOutDim 4 5 3 1 (0 \<noteq> (0 :: int64)) = Inr 1 \<and>
   ConvTranspose_cover_all (array_of_shape [1, 4, 3, 3]) (array_of_shape [4, 3, 3, 3])
     [5, 5] [1, 1] [0, 0] = Inr True"
proof -
  have g: "GetConvOutDim 1 5 3 1 False = Inr 1" "GetConvOutDim 4 5 3 1 False = Inr 1"
    by (simp_all add: GetConvOutDim_def int64_div_def signed_divide_int_def)
  have s: "shape (array_of_shape [1, 1, 3, 3]) = [1, 1, 3, 3]"
    "shape (array_of_shape [1, 4, 3, 3]) = [1, 4, 3, 3]"
    "shape (array_of_shape [4, 3, 3, 3]) = [4, 3, 3, 3]"
    by (simp_all add: array_of_shape_def)
  have two: "(\<forall>i<Suc (Suc 0). P i) \<longleftrightarrow> P 0 \<and> P (Suc 0)" for P :: "nat \<Rightarrow> bool"
    by (auto simp: less_Suc_eq)
  from cover_all_loop_out_of_range [of "array_of_shape [1, 1, 3, 3]"
      "array_of_shape [1, 1, 3, 3]" "[5, 5]" "[1, 1]" "[0, 0]" example_env]
  have first: "ConvTranspose_cover_all (array_of_shape [1, 1, 3, 3])
      (array_of_shape [1, 1, 3, 3]) [5, 5] [1, 1] [0, 0] = Inl IndexOutOfRange"
    by (simp add: s g two)
  from cover_all_loop_out_of_range [of "array_of_shape [1, 4, 3, 3]"
      "array_of_shape [4, 3, 3, 3]" "[5, 5]" "[1, 1]" "[0, 0]" example_env]
  have second: "ConvTranspose_cover_all (array_of_shape [1, 4, 3, 3])
      (array_of_shape [4, 3, 3, 3]) [5, 5] [1, 1] [0, 0] = Inr True"
    by (simp add: s g two)
  from first second g s show ?thesis by simp
qed

text \<open>
  Claim C1, at a call where the code does not do what the claim says. \<open>x\<close> has shape
  \<open>(1, 4, 3, 3)\<close>, \<open>w\<close> has shape \<open>(4, 3, 3, 3)\<close>, stride is 1, there is no padding, and
  the output size \<open>(5, 5)\<close> is what \<^const>\<open>GetConvTransposeOutDim\<close> gives without
  \<open>cover_all\<close>; the convolution of size 5 by a kernel of size 3 has size 3 again, the
  size of \<open>x\<close>. The loop compares the channel axis of \<open>x\<close>, 4,
  with \<open>GetConvOutDim(4, 5, 3, 1, false) = 1\<close> and sets \<open>cover_all\<close>: the backward
  function for \<open>x\<close> calls \<^verbatim>\<open>Conv\<close> with \<open>cover_all = true\<close>.
\<close>

theorem ConvTranspose_cover_all_at_default_size:
  "ConvTranspose_real_out_size (array_of_shape [1, 4, 3, 3]) (array_of_shape [4, 3, 3, 3])
      [1, 1] [0, 0] None = Inr [5, 5] \<and>
   GetConvTransposeOutDim 3 3 1 0 False = 5 \<and>
   GetConvOutDim 5 3 1 0 False = Inr 3 \<and>
   ConvTranspose_cover_all (array_of_shape [1, 4, 3, 3]) (array_of_shape [4, 3, 3, 3])
      [5, 5] [1, 1] [0, 0] = Inr True \<and>
   (backward_functions
      (ConvTranspose example_env (array_of_shape [1, 4, 3, 3]) (array_of_shape [4, 3, 3, 3])
         None [1, 1] [0, 0] (Some [5, 5])) ! 0) (array_of_shape [1, 3, 5, 5], [])
     = Conv example_env (array_of_shape [1, 3, 5, 5]) (array_of_shape [4, 3, 3, 3]) None
         [1, 1] [0, 0] True"
proof -
  have "GetConvTransposeOutDim 3 3 1 0 False = 5"
    by (simp add: GetConvTransposeOutDim_def)
  moreover have "GetConvOutDim 5 3 1 0 False = Inr 3"
    by (simp add: GetConvOutDim_def int64_div_def signed_divide_int_def)
  moreover have "(backward_functions
      (ConvTranspose example_env (array_of_shape [1, 4, 3, 3]) (array_of_shape [4, 3, 3, 3])
         None [1, 1] [0, 0] (Some [5, 5])) ! 0) (array_of_shape [1, 3, 5, 5], [])
     = Conv example_env (array_of_shape [1, 3, 5, 5]) (array_of_shape [4, 3, 3, 3]) None
         [1, 1] [0, 0] True"
    by (simp add: ConvTranspose_unfold ConvTranspose_real_out_size_def cover_all_example
          exec_ConvTranspose_x_backward_function AsConstant_Nil)
  ultimately show ?thesis
    using real_out_size_example cover_all_example by simp
qed

end
